theory Spec2Isabelle
  imports Complex_Main "HOL-Library.Sublist"
begin

section \<open>Strings as the library uses them\<close>

text \<open>
  A string is a list of characters, and \<open>length\<close> is the source's \<open>.length\<close>. The
  functions below are the string methods the library calls, with the results JavaScript
  gives: \<open>indexOf\<close> is the first position of a pattern or \<open>-1\<close>, \<open>charAt\<close> outside the
  string is the empty string, \<open>substr\<close> past the end is cut at the end.
\<close>

abbreviation crlf :: string where
  "crlf \<equiv> [CHR 0x0D, CHR 0x0A]"

abbreviation dquote :: char where
  "dquote \<equiv> CHR 0x22"

fun indexOf :: "string \<Rightarrow> string \<Rightarrow> int" where
  "indexOf [] p = (if p = [] then 0 else -1)"
| "indexOf (c # cs) p =
     (if prefix p (c # cs) then 0
      else (let r = indexOf cs p in if r < 0 then -1 else r + 1))"

definition indexOfFrom :: "string \<Rightarrow> string \<Rightarrow> nat \<Rightarrow> int" where
  "indexOfFrom s p n =
     (let m = min n (length s); r = indexOf (drop m s) p
      in if r < 0 then -1 else r + int m)"

definition charAt :: "string \<Rightarrow> int \<Rightarrow> string" where
  "charAt s i = (if 0 \<le> i \<and> i < int (length s) then [s ! nat i] else [])"

definition substrFrom :: "string \<Rightarrow> int \<Rightarrow> string" where
  "substrFrom s start = drop (nat start) s"

definition substr :: "string \<Rightarrow> int \<Rightarrow> int \<Rightarrow> string" where
  "substr s start len = take (nat len) (drop (nat start) s)"

text \<open>Decimal text of a length, as string concatenation with a number produces it.\<close>

fun showNat :: "nat \<Rightarrow> string" where
  "showNat n =
     (if n < 10 then [''0123456789'' ! n]
      else showNat (n div 10) @ [''0123456789'' ! (n mod 10)])"

declare showNat.simps [simp del]

section \<open>The board: clock, serial channel and the library's variables\<close>

text \<open>
  The state holds the library's global variables and the two things the environment
  decides: \<open>clock\<close> is the list of values that the coming calls of
  \<open>input.runningTime()\<close> return, \<open>serialIn\<close> the list of strings that the coming calls
  of \<open>serial.readString()\<close> return (nothing is available once it is used up).
  \<open>serialOut\<close> records what \<open>serial.writeString\<close> has written, oldest first.
  A run that needs a clock value the list does not have has no result (\<open>None\<close>).
\<close>

record board =
  clock :: "int list"
  serialIn :: "string list"
  serialOut :: "string list"
  rxData :: string
  esp8266Initialized :: bool
  wifiConnected :: bool
  firebaseApiKey :: string
  firebaseDatabaseURL :: string
  firebaseProjectId :: string
  firebasePath :: string
  firebaseDataSent :: bool

definition runningTime :: "board \<Rightarrow> (int \<times> board) option" where
  "runningTime w =
     (case clock w of [] \<Rightarrow> None | t # ts \<Rightarrow> Some (t, w\<lparr>clock := ts\<rparr>))"

definition serial_readString :: "board \<Rightarrow> string \<times> board" where
  "serial_readString w =
     (case serialIn w of [] \<Rightarrow> ([], w) | s # ss \<Rightarrow> (s, w\<lparr>serialIn := ss\<rparr>))"

definition serial_writeString :: "string \<Rightarrow> board \<Rightarrow> board" where
  "serial_writeString s w = w\<lparr>serialOut := serialOut w @ [s]\<rparr>"

text \<open>
  \<open>basic.pause\<close> blocks for the given time and changes no variable; the time that passes
  shows in the clock values that follow.
\<close>

definition basic_pause :: "int \<Rightarrow> board \<Rightarrow> board" where
  "basic_pause ms w = w"

section \<open>Command exchange and response accumulator\<close>

function sendCommand_loop :: "string \<Rightarrow> int \<Rightarrow> int \<Rightarrow> board \<Rightarrow> (bool \<times> board) option" where
  "sendCommand_loop expected start timeout w =
     (case runningTime w of
        None \<Rightarrow> None
      | Some (t, w1) \<Rightarrow>
          if t - start < timeout then
            (let (s, w2) = serial_readString w1;
                 w3 = w2\<lparr>rxData := rxData w2 @ s\<rparr>
             in if indexOf (rxData w3) expected \<ge> 0 then Some (True, w3)
                else if indexOf (rxData w3) ''ERROR'' \<ge> 0 then Some (False, w3)
                else sendCommand_loop expected start timeout w3)
          else Some (False, w1))"
  by pat_completeness auto
termination
  by (relation "measure (\<lambda>(expected, start, timeout, w). length (clock w))")
     (auto simp: runningTime_def serial_readString_def split: list.splits)

declare sendCommand_loop.simps [simp del]

text \<open>\<open>expected = None\<close> is the source's \<open>null\<close> default.\<close>

definition sendCommand :: "string \<Rightarrow> string option \<Rightarrow> int \<Rightarrow> board \<Rightarrow> (bool \<times> board) option" where
  "sendCommand command expected timeout w =
     (let w1 = w\<lparr>rxData := []\<rparr>;
          (discarded, w2) = serial_readString w1;
          w3 = serial_writeString (command @ crlf) w2
      in case expected of
           None \<Rightarrow> Some (True, w3)
         | Some e \<Rightarrow>
             (case runningTime w3 of
                None \<Rightarrow> None
              | Some (start, w4) \<Rightarrow> sendCommand_loop e start timeout w4))"

function getResponse_loop :: "string \<Rightarrow> int \<Rightarrow> int \<Rightarrow> board \<Rightarrow> (string \<times> board) option" where
  "getResponse_loop expected start timeout w =
     (case runningTime w of
        None \<Rightarrow> None
      | Some (t, w1) \<Rightarrow>
          if t - start < timeout then
            (let (s, w2) = serial_readString w1;
                 w3 = w2\<lparr>rxData := rxData w2 @ s\<rparr>
             in if expected \<noteq> [] \<and> indexOf (rxData w3) expected \<ge> 0 then Some (rxData w3, w3)
                else getResponse_loop expected start timeout (basic_pause 50 w3))
          else Some (rxData w1, w1))"
  by pat_completeness auto
termination
  by (relation "measure (\<lambda>(expected, start, timeout, w). length (clock w))")
     (auto simp: runningTime_def serial_readString_def basic_pause_def split: list.splits)

declare getResponse_loop.simps [simp del]

definition getResponse :: "string \<Rightarrow> int \<Rightarrow> board \<Rightarrow> (string \<times> board) option" where
  "getResponse expected timeout w =
     (let w1 = w\<lparr>rxData := []\<rparr>
      in case runningTime w1 of
           None \<Rightarrow> None
         | Some (start, w2) \<Rightarrow> getResponse_loop expected start timeout w2)"

section \<open>Link and session state\<close>

text \<open>The error hook of the source has an empty body.\<close>

definition error :: "int \<Rightarrow> board \<Rightarrow> board" where
  "error code w = w"

definition isWifiConnected :: "board \<Rightarrow> bool" where
  "isWifiConnected w = wifiConnected w"

definition setWifiConnected :: "bool \<Rightarrow> board \<Rightarrow> board" where
  "setWifiConnected status w = w\<lparr>wifiConnected := status\<rparr>"

text \<open>
  \<open>serial.redirect\<close> selects pins and baud rate; it touches none of the variables of the
  state. Pins and baud rates are numbers here.
\<close>

definition serial_redirect :: "nat \<Rightarrow> nat \<Rightarrow> nat \<Rightarrow> board \<Rightarrow> board" where
  "serial_redirect tx rx baudrate w = w"

definition init :: "nat \<Rightarrow> nat \<Rightarrow> nat \<Rightarrow> board \<Rightarrow> board option" where
  "init tx rx baudrate w =
     (let w0 = basic_pause 100 (serial_redirect tx rx baudrate w)
      in case sendCommand ''AT+RST'' (Some ''ready'') 5000 w0 of
           None \<Rightarrow> None
         | Some (ok1, w1) \<Rightarrow>
             if \<not> ok1 then Some (error 1 w1)
             else (case sendCommand ''ATE0'' (Some ''OK'') 1000 w1 of
                     None \<Rightarrow> None
                   | Some (ok2, w2) \<Rightarrow>
                       if \<not> ok2 then Some (error 2 w2)
                       else (case sendCommand ''AT+CWMODE=1'' (Some ''OK'') 1000 w2 of
                               None \<Rightarrow> None
                             | Some (ok3, w3) \<Rightarrow>
                                 if \<not> ok3 then Some (error 3 w3)
                                 else Some (w3\<lparr>esp8266Initialized := True\<rparr>))))"

definition connectWiFi :: "string \<Rightarrow> string \<Rightarrow> board \<Rightarrow> (bool \<times> board) option" where
  \<open>connectWiFi ssid password w =
     (if \<not> esp8266Initialized w then Some (False, w)
      else (let w1 = w\<lparr>wifiConnected := False\<rparr>
            in case sendCommand (''AT+CWJAP="'' @ ssid @ ''","'' @ password @ ''"'')
                      (Some ''WIFI GOT IP'') 20000 w1 of
                 None \<Rightarrow> None
               | Some (ok, w2) \<Rightarrow>
                   if ok then Some (True, w2\<lparr>wifiConnected := True\<rparr>)
                   else Some (False, w2)))\<close>

definition disconnectWiFi :: "board \<Rightarrow> board option" where
  "disconnectWiFi w =
     (case sendCommand ''AT+CWQAP'' (Some ''OK'') 1000 w of
        None \<Rightarrow> None
      | Some (ok, w1) \<Rightarrow> Some (w1\<lparr>wifiConnected := False\<rparr>))"

section \<open>HTTP client\<close>

text \<open>
  The drain loop of the HTTP functions: until the clock is \<open>window\<close> past \<open>start\<close>,
  append what the channel has and pause.
\<close>

function drain_loop :: "int \<Rightarrow> int \<Rightarrow> board \<Rightarrow> board option" where
  "drain_loop start window w =
     (case runningTime w of
        None \<Rightarrow> None
      | Some (t, w1) \<Rightarrow>
          if t - start < window then
            (let (s, w2) = serial_readString w1;
                 w3 = w2\<lparr>rxData := rxData w2 @ s\<rparr>
             in drain_loop start window (basic_pause 200 w3))
          else Some w1)"
  by pat_completeness auto
termination
  by (relation "measure (\<lambda>(start, window, w). length (clock w))")
     (auto simp: runningTime_def serial_readString_def basic_pause_def split: list.splits)

declare drain_loop.simps [simp del]

definition getRawFromServer ::
  "string \<Rightarrow> string \<Rightarrow> string \<Rightarrow> string \<Rightarrow> board \<Rightarrow> (string \<times> board) option" where
  \<open>getRawFromServer serverIp ssid password path w =
     (if \<not> esp8266Initialized w then Some ([], w)
      else
        (case (if \<not> isWifiConnected w then connectWiFi ssid password w else Some (True, w)) of
           None \<Rightarrow> None
         | Some (joined, wa) \<Rightarrow>
             if \<not> joined then Some ([], wa)
             else
               (let wb = wa\<lparr>rxData := []\<rparr>;
                    (discarded, w0) = serial_readString wb
                in case sendCommand (''AT+CIPSTART="TCP","'' @ serverIp @ ''",80'')
                          (Some ''CONNECT'') 8000 w0 of
                     None \<Rightarrow> None
                   | Some (opened, w1) \<Rightarrow>
                       if \<not> opened then Some ([], w1)
                       else
                         (let httpRequest =
                                ''GET '' @ path @ '' HTTP/1.1'' @ crlf @
                                ''Host: '' @ serverIp @ crlf @
                                ''Connection: close'' @ crlf @ crlf
                          in case sendCommand (''AT+CIPSEND='' @ showNat (length httpRequest + 2))
                                    (Some ''>'') 5000 w1 of
                               None \<Rightarrow> None
                             | Some (ready, w2) \<Rightarrow>
                                 if \<not> ready then
                                   (case sendCommand ''AT+CIPCLOSE'' None 1000 w2 of
                                      None \<Rightarrow> None
                                    | Some (ack, w3) \<Rightarrow> Some ([], w3))
                                 else
                                   (let w3 = serial_writeString httpRequest w2
                                    in case runningTime w3 of
                                         None \<Rightarrow> None
                                       | Some (start, w4) \<Rightarrow>
                                           (case drain_loop start 8000 w4 of
                                              None \<Rightarrow> None
                                            | Some w5 \<Rightarrow>
                                                (case sendCommand ''AT+CIPCLOSE'' None 1000 w5 of
                                                   None \<Rightarrow> None
                                                 | Some (ack, w6) \<Rightarrow> Some (rxData w6, w6))))))))\<close>

definition sendToServer ::
  "string \<Rightarrow> string \<Rightarrow> string \<Rightarrow> string \<Rightarrow> board \<Rightarrow> (bool \<times> board) option" where
  \<open>sendToServer serverIp ssid password data w =
     (if \<not> esp8266Initialized w then Some (False, w)
      else
        (case (if \<not> isWifiConnected w then connectWiFi ssid password w else Some (True, w)) of
           None \<Rightarrow> None
         | Some (joined, w0) \<Rightarrow>
             if \<not> joined then Some (False, w0)
             else
               (case sendCommand (''AT+CIPSTART="TCP","'' @ serverIp @ ''",80'')
                          (Some ''CONNECT'') 8000 w0 of
                  None \<Rightarrow> None
                | Some (opened, w1) \<Rightarrow>
                    if \<not> opened then Some (False, w1)
                    else
                      (let httpRequest =
                             ''GET /tes.php?'' @ data @ '' HTTP/1.1'' @ crlf @
                             ''Host: '' @ serverIp @ crlf @
                             ''Connection: close'' @ crlf @ crlf;
                           len = length httpRequest + 2
                       in case sendCommand (''AT+CIPSEND='' @ showNat len) (Some ''>'') 5000 w1 of
                            None \<Rightarrow> None
                          | Some (ready, w2) \<Rightarrow>
                              if \<not> ready then
                                (case sendCommand ''AT+CIPCLOSE'' None 1000 w2 of
                                   None \<Rightarrow> None
                                 | Some (ack, w3) \<Rightarrow> Some (False, w3))
                              else
                                (let w3 = basic_pause 4000 (serial_writeString httpRequest w2)
                                 in case sendCommand ''AT+CIPCLOSE'' None 1000 w3 of
                                      None \<Rightarrow> None
                                    | Some (ack, w4) \<Rightarrow> Some (True, w4))))))\<close>

definition httpGet :: "string \<Rightarrow> string \<Rightarrow> board \<Rightarrow> (string \<times> board) option" where
  \<open>httpGet serverIp path w =
     (if \<not> esp8266Initialized w then Some ([], w)
      else if \<not> isWifiConnected w then Some ([], w)
      else
        (let wb = w\<lparr>rxData := []\<rparr>;
             (discarded, w0) = serial_readString wb
         in case sendCommand (''AT+CIPSTART="TCP","'' @ serverIp @ ''",80'')
                   (Some ''CONNECT'') 5000 w0 of
              None \<Rightarrow> None
            | Some (opened, w1) \<Rightarrow>
                if \<not> opened then Some ([], w1)
                else
                  (let httpRequest =
                         ''GET '' @ path @ '' HTTP/1.1'' @ crlf @
                         ''Host: '' @ serverIp @ crlf @
                         ''Connection: close'' @ crlf @ crlf
                   in case sendCommand (''AT+CIPSEND='' @ showNat (length httpRequest))
                             (Some ''>'') 3000 w1 of
                        None \<Rightarrow> None
                      | Some (ready, w2) \<Rightarrow>
                          if \<not> ready then
                            (case sendCommand ''AT+CIPCLOSE'' None 1000 w2 of
                               None \<Rightarrow> None
                             | Some (ack, w3) \<Rightarrow> Some ([], w3))
                          else
                            (let w3 = serial_writeString httpRequest w2
                             in case runningTime w3 of
                                  None \<Rightarrow> None
                                | Some (start, w4) \<Rightarrow>
                                    (case drain_loop start 5000 w4 of
                                       None \<Rightarrow> None
                                     | Some w5 \<Rightarrow>
                                         (case sendCommand ''AT+CIPCLOSE'' None 1000 w5 of
                                            None \<Rightarrow> None
                                          | Some (ack, w6) \<Rightarrow> Some (rxData w6, w6)))))))\<close>

definition httpPost :: "string \<Rightarrow> string \<Rightarrow> string \<Rightarrow> board \<Rightarrow> (string \<times> board) option" where
  \<open>httpPost serverIp path data w =
     (if \<not> esp8266Initialized w then Some ([], w)
      else if \<not> isWifiConnected w then Some ([], w)
      else
        (let wb = w\<lparr>rxData := []\<rparr>;
             (discarded, w0) = serial_readString wb
         in case sendCommand (''AT+CIPSTART="TCP","'' @ serverIp @ ''",80'')
                   (Some ''CONNECT'') 5000 w0 of
              None \<Rightarrow> None
            | Some (opened, w1) \<Rightarrow>
                if \<not> opened then Some ([], w1)
                else
                  (let httpRequest =
                         ''POST '' @ path @ '' HTTP/1.1'' @ crlf @
                         ''Host: '' @ serverIp @ crlf @
                         ''Content-Type: application/json'' @ crlf @
                         ''Content-Length: '' @ showNat (length data) @ crlf @
                         ''Connection: close'' @ crlf @ crlf @
                         data
                   in case sendCommand (''AT+CIPSEND='' @ showNat (length httpRequest))
                             (Some ''>'') 3000 w1 of
                        None \<Rightarrow> None
                      | Some (ready, w2) \<Rightarrow>
                          if \<not> ready then
                            (case sendCommand ''AT+CIPCLOSE'' None 1000 w2 of
                               None \<Rightarrow> None
                             | Some (ack, w3) \<Rightarrow> Some ([], w3))
                          else
                            (let w3 = serial_writeString httpRequest w2
                             in case runningTime w3 of
                                  None \<Rightarrow> None
                                | Some (start, w4) \<Rightarrow>
                                    (case drain_loop start 5000 w4 of
                                       None \<Rightarrow> None
                                     | Some w5 \<Rightarrow>
                                         (case sendCommand ''AT+CIPCLOSE'' None 1000 w5 of
                                            None \<Rightarrow> None
                                          | Some (ack, w6) \<Rightarrow> Some (rxData w6, w6)))))))\<close>

section \<open>Numbers\<close>

text \<open>
  A number of the source is a binary64 floating-point value, here the rational it stands
  for. Every arithmetic operation is the exact operation followed by \<open>fl\<close>, rounding to
  the nearest value with a 53-bit significand, ties to the even significand. The exponent
  is not bounded: the model is the source's arithmetic as long as no result overflows or
  is subnormal. \<open>Math.pow\<close> is taken as correctly rounded (it is exact for the powers of
  ten up to \<open>10^22\<close>).
\<close>

type_synonym number = rat

definition roundHalfEven :: "rat \<Rightarrow> int" where
  "roundHalfEven x =
     (let f = \<lfloor>x\<rfloor>; r = x - of_int f
      in if r < 1 / 2 then f else if 1 / 2 < r then f + 1 else if even f then f else f + 1)"

text \<open>
  \<open>bitlen n\<close> is the number of binary digits of a positive \<open>n\<close>, and \<open>binade x\<close> the
  \<open>e\<close> with \<open>2^e \<le> x < 2^(e+1)\<close>, for positive \<open>x\<close>.
\<close>

function bitlen :: "int \<Rightarrow> int" where
  "bitlen n = (if n \<le> 0 then 0 else 1 + bitlen (n div 2))"
  by pat_completeness auto
termination
  by (relation "measure nat") auto

declare bitlen.simps [simp del]

definition binade :: "rat \<Rightarrow> int" where
  "binade x =
     (let (p, q) = quotient_of x;
          d = bitlen p - bitlen q
      in if 2 powi d \<le> x then d else d - 1)"

definition fl :: "rat \<Rightarrow> number" where
  "fl x =
     (if x = 0 then 0
      else (let e = binade \<bar>x\<bar> - 52
            in sgn x * of_int (roundHalfEven (\<bar>x\<bar> / 2 powi e)) * 2 powi e))"

definition num_add :: "number \<Rightarrow> number \<Rightarrow> number" where
  "num_add a b = fl (a + b)"

definition num_mul :: "number \<Rightarrow> number \<Rightarrow> number" where
  "num_mul a b = fl (a * b)"

definition num_div :: "number \<Rightarrow> number \<Rightarrow> number" where
  "num_div a b = fl (a / b)"

definition Math_pow :: "number \<Rightarrow> nat \<Rightarrow> number" where
  "Math_pow a n = fl (a ^ n)"

section \<open>Firebase helpers\<close>

definition extractHost :: "string \<Rightarrow> string" where
  "extractHost url =
     (let host = url;
          host = (if indexOf host ''https://'' \<ge> 0 then substrFrom host 8 else host);
          host = (if indexOf host ''http://'' \<ge> 0 then substrFrom host 7 else host);
          host = (if charAt host (int (length host) - 1) = ''/''
                  then substr host 0 (int (length host) - 1) else host)
      in host)"

definition cleanPath :: "string \<Rightarrow> string" where
  "cleanPath path = (if charAt path 0 = ''/'' then substrFrom path 1 else path)"

definition isDigit :: "char \<Rightarrow> bool" where
  "isDigit c \<longleftrightarrow> (48::nat) \<le> of_char c \<and> of_char c \<le> (57::nat)"

record parseState =
  result :: number
  isNegative :: bool
  hasDecimal :: bool
  decimalPlace :: nat

text \<open>The body of the loop of \<open>parseStringToNumber\<close>, for the character \<open>c\<close> at index \<open>i\<close>.\<close>

definition parseStringToNumber_step :: "nat \<Rightarrow> char \<Rightarrow> parseState \<Rightarrow> parseState" where
  "parseStringToNumber_step i c st =
     (if c = CHR ''-'' \<and> i = 0 then st\<lparr>isNegative := True\<rparr>
      else if c = CHR ''.'' then st\<lparr>hasDecimal := True\<rparr>
      else if isDigit c then
        (let digit = of_nat (of_char c - 48)
         in if hasDecimal st then
              (let st1 = st\<lparr>decimalPlace := decimalPlace st + 1\<rparr>
               in st1\<lparr>result := num_add (result st1)
                                     (num_div digit (Math_pow 10 (decimalPlace st1)))\<rparr>)
            else st\<lparr>result := num_add (num_mul (result st) 10) digit\<rparr>)
      else st)"

fun parseStringToNumber_loop :: "nat \<Rightarrow> string \<Rightarrow> parseState \<Rightarrow> parseState" where
  "parseStringToNumber_loop i [] st = st"
| "parseStringToNumber_loop i (c # cs) st =
     parseStringToNumber_loop (i + 1) cs (parseStringToNumber_step i c st)"

definition parseStringToNumber :: "string \<Rightarrow> number" where
  "parseStringToNumber valueStr =
     (let st = parseStringToNumber_loop 0 valueStr
                 \<lparr>result = 0, isNegative = False, hasDecimal = False, decimalPlace = 0\<rparr>
      in if isNegative st then - result st else result st)"

section \<open>Firebase read\<close>

text \<open>
  \<open>readFirebaseString\<close> is given in three parts. \<open>readFirebaseString_exchange\<close> is the
  function up to the close command after the response has been read: its result is
  \<open>None\<close> where the function has returned the empty string by then, and the response
  otherwise. \<open>readFirebaseString_parse\<close> is the rest of the function, from the check for
  \<open>200 OK\<close> on, with \<open>readFirebaseString_clean\<close> for its last loop.
\<close>

definition readFirebaseString_exchange ::
  "string \<Rightarrow> board \<Rightarrow> (string option \<times> board) option" where
  \<open>readFirebaseString_exchange deviceName w =
     (if \<not> isWifiConnected w then Some (None, w)
      else if firebaseDatabaseURL w = [] \<or> firebaseApiKey w = [] then Some (None, w)
      else
        (let fullPath = cleanPath (firebasePath w @ ''/'' @ deviceName @ ''/value'');
             host = extractHost (firebaseDatabaseURL w)
         in case sendCommand (''AT+CIPSTART="SSL","'' @ host @ ''",443'') (Some ''OK'') 5000 w of
              None \<Rightarrow> None
            | Some (opened, w1) \<Rightarrow>
                if \<not> opened then Some (None, w1)
                else
                  (let requestPath = ''/'' @ fullPath @ ''.json?auth='' @ firebaseApiKey w1;
                       httpRequest =
                         ''GET '' @ requestPath @ '' HTTP/1.1'' @ crlf @
                         ''Host: '' @ host @ crlf @
                         ''Connection: close'' @ crlf @
                         crlf
                   in case sendCommand (''AT+CIPSEND='' @ showNat (length httpRequest))
                             (Some ''OK'') 2000 w1 of
                        None \<Rightarrow> None
                      | Some (ready, w2) \<Rightarrow>
                          if \<not> ready then
                            (case sendCommand ''AT+CIPCLOSE'' (Some ''OK'') 1000 w2 of
                               None \<Rightarrow> None
                             | Some (ack, w3) \<Rightarrow> Some (None, w3))
                          else
                            (let w3 = basic_pause 100 (serial_writeString httpRequest w2)
                             in case getResponse [] 3000 w3 of
                                  None \<Rightarrow> None
                                | Some (response, w4) \<Rightarrow>
                                    (case sendCommand ''AT+CIPCLOSE'' (Some ''OK'') 500 w4 of
                                       None \<Rightarrow> None
                                     | Some (ack, w5) \<Rightarrow> Some (Some response, w5))))))\<close>

fun readFirebaseString_clean :: "string \<Rightarrow> string \<Rightarrow> string" where
  "readFirebaseString_clean [] cleanBody = cleanBody"
| "readFirebaseString_clean (c # cs) cleanBody =
     (if isDigit c \<or> c = CHR ''.'' \<or> c = CHR ''-'' then
        readFirebaseString_clean cs (cleanBody @ [c])
      else if length cleanBody > 0 then cleanBody
      else readFirebaseString_clean cs cleanBody)"

definition readFirebaseString_parse :: "string \<Rightarrow> string" where
  "readFirebaseString_parse response =
     (if indexOf response ''200 OK'' < 0 then []
      else
        (let bodyStart = indexOf response (crlf @ crlf)
         in if bodyStart < 0 then []
            else
              (let body = substrFrom response (bodyStart + 4)
               in if indexOf body ''null'' \<ge> 0 then []
                  else if charAt body 0 = [dquote] \<and> indexOfFrom body [dquote] 1 > 0 then
                    substr body 1 (indexOfFrom body [dquote] 1 - 1)
                  else readFirebaseString_clean body [])))"

definition readFirebaseString :: "string \<Rightarrow> board \<Rightarrow> (string \<times> board) option" where
  "readFirebaseString deviceName w =
     (case readFirebaseString_exchange deviceName w of
        None \<Rightarrow> None
      | Some (None, w') \<Rightarrow> Some ([], w')
      | Some (Some response, w') \<Rightarrow> Some (readFirebaseString_parse response, w'))"

definition readFirebaseNumber :: "string \<Rightarrow> board \<Rightarrow> (number \<times> board) option" where
  "readFirebaseNumber deviceName w =
     (case readFirebaseString deviceName w of
        None \<Rightarrow> None
      | Some (valueStr, w') \<Rightarrow>
          if valueStr = [] then Some (0, w') else Some (parseStringToNumber valueStr, w'))"

section \<open>Firebase write and delete\<close>

definition sendFirebaseData :: "string \<Rightarrow> string \<Rightarrow> board \<Rightarrow> board option" where
  \<open>sendFirebaseData path jsonData w =
     (let w0 = w\<lparr>firebaseDataSent := False\<rparr>
      in if \<not> isWifiConnected w0 then Some w0
         else if firebaseDatabaseURL w0 = [] \<or> firebaseApiKey w0 = [] then Some w0
         else
           (let path1 = cleanPath path;
                host = extractHost (firebaseDatabaseURL w0)
            in case sendCommand (''AT+CIPSTART="SSL","'' @ host @ ''",443'') (Some ''OK'') 3000 w0 of
                 None \<Rightarrow> None
               | Some (opened, w1) \<Rightarrow>
                   if \<not> opened then Some w1
                   else
                     (let requestPath = ''/'' @ path1 @ ''.json?auth='' @ firebaseApiKey w1;
                          httpRequest =
                            ''PATCH '' @ requestPath @ '' HTTP/1.1'' @ crlf @
                            ''Host: '' @ host @ crlf @
                            ''Content-Type: application/json'' @ crlf @
                            ''Content-Length: '' @ showNat (length jsonData) @ crlf @
                            ''Connection: close'' @ crlf @
                            crlf @
                            jsonData
                      in case sendCommand (''AT+CIPSEND='' @ showNat (length httpRequest))
                                (Some ''OK'') 1000 w1 of
                           None \<Rightarrow> None
                         | Some (ready, w2) \<Rightarrow>
                             if \<not> ready then
                               (case sendCommand ''AT+CIPCLOSE'' (Some ''OK'') 1000 w2 of
                                  None \<Rightarrow> None
                                | Some (ack, w3) \<Rightarrow> Some w3)
                             else
                               (case sendCommand httpRequest None 100 w2 of
                                  None \<Rightarrow> None
                                | Some (ack, w3) \<Rightarrow>
                                    (case getResponse ''SEND OK'' 1500 w3 of
                                       None \<Rightarrow> None
                                     | Some (sendOk, w4) \<Rightarrow>
                                         if sendOk = [] then
                                           (case sendCommand ''AT+CIPCLOSE'' (Some ''OK'') 500 w4 of
                                              None \<Rightarrow> None
                                            | Some (ack, w5) \<Rightarrow> Some w5)
                                         else
                                           (case getResponse [] 1500 w4 of
                                              None \<Rightarrow> None
                                            | Some (response, w5) \<Rightarrow>
                                                (let w6 =
                                                       (if response \<noteq> [] \<and> indexOf response ''200'' \<ge> 0
                                                        then w5\<lparr>firebaseDataSent := True\<rparr> else w5)
                                                 in case sendCommand ''AT+CIPCLOSE'' (Some ''OK'') 500 w6 of
                                                      None \<Rightarrow> None
                                                    | Some (ack, w7) \<Rightarrow> Some w7)))))))\<close>

definition firebaseDelete :: "string \<Rightarrow> board \<Rightarrow> board option" where
  \<open>firebaseDelete deviceName w =
     (if \<not> isWifiConnected w then Some w
      else if firebaseDatabaseURL w = [] \<or> firebaseApiKey w = [] then Some w
      else
        (let fullPath = cleanPath (firebasePath w @ ''/'' @ deviceName);
             host = extractHost (firebaseDatabaseURL w)
         in case sendCommand (''AT+CIPSTART="SSL","'' @ host @ ''",443'') (Some ''OK'') 3000 w of
              None \<Rightarrow> None
            | Some (opened, w1) \<Rightarrow>
                if \<not> opened then Some w1
                else
                  (let requestPath = ''/'' @ fullPath @ ''.json?auth='' @ firebaseApiKey w1;
                       httpRequest =
                         ''DELETE '' @ requestPath @ '' HTTP/1.1'' @ crlf @
                         ''Host: '' @ host @ crlf @
                         ''Connection: close'' @ crlf @
                         crlf
                   in case sendCommand (''AT+CIPSEND='' @ showNat (length httpRequest))
                             (Some ''OK'') 1000 w1 of
                        None \<Rightarrow> None
                      | Some (ready, w2) \<Rightarrow>
                          if \<not> ready then
                            (case sendCommand ''AT+CIPCLOSE'' (Some ''OK'') 1000 w2 of
                               None \<Rightarrow> None
                             | Some (ack, w3) \<Rightarrow> Some w3)
                          else
                            (let w3 = basic_pause 500 (serial_writeString httpRequest w2)
                             in case sendCommand ''AT+CIPCLOSE'' (Some ''OK'') 500 w3 of
                                  None \<Rightarrow> None
                                | Some (ack, w4) \<Rightarrow> Some w4))))\<close>

section \<open>Vocabulary of the properties\<close>

text \<open>
  \<open>snapshot ins k\<close> is the text accumulated after poll number \<open>k\<close> (from 0) of a
  polling loop that starts with an empty buffer and reads the chunks \<open>ins\<close>;
  \<open>polls start timeout ticks\<close> is the number of polls a loop makes when its clock reads
  \<open>ticks\<close>: one for each reading before the first that is \<open>timeout\<close> or more after
  \<open>start\<close>.
\<close>

definition snapshot :: "string list \<Rightarrow> nat \<Rightarrow> string" where
  "snapshot ins k = concat (take (Suc k) ins)"

definition polls :: "int \<Rightarrow> int \<Rightarrow> int list \<Rightarrow> nat" where
  "polls start timeout ticks = length (takeWhile (\<lambda>t. t - start < timeout) ticks)"

text \<open>The board after power-on: the initial values of the library's variables.\<close>

definition powerOn :: board where
  "powerOn = \<lparr>clock = [], serialIn = [], serialOut = [], rxData = [],
     esp8266Initialized = False, wifiConnected = False, firebaseApiKey = [],
     firebaseDatabaseURL = [], firebaseProjectId = [], firebasePath = ''iot'',
     firebaseDataSent = False\<rparr>"

text \<open>
  \<open>closedAfter w1 w'\<close>: the writes made between the boards \<open>w1\<close> and \<open>w'\<close> end with
  the close command.
\<close>

definition closedAfter :: "board \<Rightarrow> board \<Rightarrow> bool" where
  "closedAfter w1 w' \<longleftrightarrow> (\<exists>mid. serialOut w' = serialOut w1 @ mid @ [''AT+CIPCLOSE'' @ crlf])"

text \<open>
  \<open>clockLasts T n ticks\<close>: the clock readings \<open>ticks\<close> suffice for \<open>n\<close> more waits of at
  most \<open>T\<close> milliseconds each. A wait takes a first reading \<open>start\<close> and then one reading
  per poll; it is over at the first reading that is \<open>T\<close> or more after \<open>start\<close>, and it may
  be over at any earlier poll, when the awaited text has arrived.
  \<open>clockReaches T n start ticks\<close>: among \<open>ticks\<close> there is a reading \<open>T\<close> or more after
  \<open>start\<close>, and the readings that follow any poll up to that one suffice for \<open>n\<close> more waits.
\<close>

fun clockLasts :: "int \<Rightarrow> nat \<Rightarrow> int list \<Rightarrow> bool"
  and clockReaches :: "int \<Rightarrow> nat \<Rightarrow> int \<Rightarrow> int list \<Rightarrow> bool" where
  "clockLasts T 0 ticks = True"
| "clockLasts T (Suc n) [] = False"
| "clockLasts T (Suc n) (start # ticks) = clockReaches T n start ticks"
| "clockReaches T n start [] = False"
| "clockReaches T n start (t # ticks) =
     (clockLasts T n ticks \<and> (T \<le> t - start \<or> clockReaches T n start ticks))"

text \<open>A board that is initialized, connected to WiFi and configured for a database.\<close>

definition linkUp :: board where
  "linkUp = powerOn\<lparr>esp8266Initialized := True, wifiConnected := True,
     firebaseApiKey := ''KEY'', firebaseDatabaseURL := ''https://demo.firebaseio.com''\<rparr>"

text \<open>
  The status line of a response is its text before the first CR-LF. \<open>bodyValue\<close> is the
  value that the read takes from a body: nothing when the body contains \<open>null\<close>; the
  text between the opening quote and the next quote when the body starts with a quote and
  has a second one; otherwise the first run of number characters (digits, dots and minus
  signs) in the body.
\<close>

definition statusLine :: "string \<Rightarrow> string" where
  "statusLine response =
     (let i = indexOf response crlf in if i < 0 then response else take (nat i) response)"

definition numberChar :: "char \<Rightarrow> bool" where
  "numberChar c \<longleftrightarrow> isDigit c \<or> c = CHR ''.'' \<or> c = CHR ''-''"

definition bodyValue :: "string \<Rightarrow> string" where
  "bodyValue body =
     (if sublist ''null'' body then []
      else if body \<noteq> [] \<and> hd body = dquote \<and> dquote \<in> set (tl body)
        then takeWhile (\<lambda>c. c \<noteq> dquote) (tl body)
      else takeWhile numberChar (dropWhile (\<lambda>c. \<not> numberChar c) body))"

section \<open>Strings and snapshots: basic facts\<close>

lemma indexOf_sublist: "indexOf s p \<ge> 0 \<longleftrightarrow> sublist p s"
  by (induction s) (auto simp: Let_def sublist_Cons_right)

lemma snapshot_0: "snapshot ins 0 = (case ins of [] \<Rightarrow> [] | s # ss \<Rightarrow> s)"
  by (simp add: snapshot_def split: list.splits)

lemma snapshot_Suc: "snapshot ins (Suc k) = snapshot ins 0 @ snapshot (tl ins) k"
  by (cases ins) (simp_all add: snapshot_def)

lemma polls_Cons:
  "polls start timeout (t # ts) = (if t - start < timeout then Suc (polls start timeout ts) else 0)"
  by (simp add: polls_def)

lemma polls_Nil: "polls start timeout [] = 0"
  by (simp add: polls_def)

lemma serialIn_update_same: "serialIn w = [] \<Longrightarrow> w\<lparr>serialIn := []\<rparr> = w"
  by (cases w) simp

lemma sendCommand_loop_Nil: "clock w = [] \<Longrightarrow> sendCommand_loop e start timeout w = None"
  by (simp add: sendCommand_loop.simps runningTime_def)

lemma sendCommand_loop_Cons:
  "clock w = t # ts \<Longrightarrow>
   sendCommand_loop e start timeout w =
     (if t - start < timeout then
        (let buf = rxData w @ snapshot (serialIn w) 0;
             w3 = w\<lparr>clock := ts, serialIn := tl (serialIn w), rxData := buf\<rparr>
         in if sublist e buf then Some (True, w3)
            else if sublist ''ERROR'' buf then Some (False, w3)
            else sendCommand_loop e start timeout w3)
      else Some (False, w\<lparr>clock := ts\<rparr>))"
  apply (subst sendCommand_loop.simps)
  apply (cases "serialIn w")
  apply (simp_all add: runningTime_def serial_readString_def snapshot_0 indexOf_sublist Let_def serialIn_update_same)
  done

lemma sendCommand_loop_true:
  "(\<exists>w'. sendCommand_loop e start timeout w = Some (True, w')) \<longleftrightarrow>
   (\<exists>k < polls start timeout (clock w).
      sublist e (rxData w @ snapshot (serialIn w) k) \<and>
      (\<forall>j<k. \<not> sublist ''ERROR'' (rxData w @ snapshot (serialIn w) j)))"
proof (induction "clock w" arbitrary: w)
  case Nil
  then show ?case
    using sendCommand_loop_Nil [of w e start timeout] by (simp add: polls_Nil)
next
  case (Cons t ts)
  from Cons.hyps(2) have c: "clock w = t # ts" by simp
  let ?w3 = "w\<lparr>clock := ts, serialIn := tl (serialIn w), rxData := rxData w @ snapshot (serialIn w) 0\<rparr>"
  have ih: "(\<exists>w'. sendCommand_loop e start timeout ?w3 = Some (True, w')) \<longleftrightarrow>
   (\<exists>k < polls start timeout ts.
      sublist e (rxData w @ snapshot (serialIn w) (Suc k)) \<and>
      (\<forall>j<k. \<not> sublist ''ERROR'' (rxData w @ snapshot (serialIn w) (Suc j))))"
    using Cons.hyps(1) [of ?w3] by (simp add: snapshot_Suc)
  show ?case
    unfolding sendCommand_loop_Cons [OF c] c [symmetric, THEN sym] polls_Cons
    using ih
    by (auto simp: Let_def Ex_less_Suc2 All_less_Suc2)
qed

lemma sendCommand_loop_false:
  "(\<exists>w'. sendCommand_loop e start timeout w = Some (False, w')) \<longleftrightarrow>
   (\<exists>k < polls start timeout (clock w).
      sublist ''ERROR'' (rxData w @ snapshot (serialIn w) k) \<and>
      (\<forall>j<Suc k. \<not> sublist e (rxData w @ snapshot (serialIn w) j))) \<or>
   (polls start timeout (clock w) < length (clock w) \<and>
    (\<forall>k < polls start timeout (clock w).
       \<not> sublist e (rxData w @ snapshot (serialIn w) k) \<and>
       \<not> sublist ''ERROR'' (rxData w @ snapshot (serialIn w) k)))"
proof (induction "clock w" arbitrary: w)
  case Nil
  then show ?case
    using sendCommand_loop_Nil [of w e start timeout] by (simp add: polls_Nil)
next
  case (Cons t ts)
  from Cons.hyps(2) have c: "clock w = t # ts" by simp
  let ?w3 = "w\<lparr>clock := ts, serialIn := tl (serialIn w), rxData := rxData w @ snapshot (serialIn w) 0\<rparr>"
  have ih: "(\<exists>w'. sendCommand_loop e start timeout ?w3 = Some (False, w')) \<longleftrightarrow>
   (\<exists>k < polls start timeout ts.
      sublist ''ERROR'' (rxData w @ snapshot (serialIn w) (Suc k)) \<and>
      (\<forall>j<Suc k. \<not> sublist e (rxData w @ snapshot (serialIn w) (Suc j)))) \<or>
   (polls start timeout ts < length ts \<and>
    (\<forall>k < polls start timeout ts.
       \<not> sublist e (rxData w @ snapshot (serialIn w) (Suc k)) \<and>
       \<not> sublist ''ERROR'' (rxData w @ snapshot (serialIn w) (Suc k))))"
    using Cons.hyps(1) [of ?w3] by (simp add: snapshot_Suc)
  show ?case
    unfolding sendCommand_loop_Cons [OF c] c [symmetric, THEN sym] polls_Cons
    using ih
    by (auto simp: Let_def Ex_less_Suc2 All_less_Suc2)
qed

lemma sendCommand_None:
  "sendCommand command None timeout w =
     Some (True, w\<lparr>rxData := [], serialIn := tl (serialIn w), serialOut := serialOut w @ [command @ crlf]\<rparr>)"
  by (cases "serialIn w")
     (simp_all add: sendCommand_def serial_readString_def serial_writeString_def serialIn_update_same)

lemma sendCommand_Some:
  "clock w = start # ticks \<Longrightarrow>
   sendCommand command (Some e) timeout w =
     sendCommand_loop e start timeout
       (w\<lparr>rxData := [], serialIn := tl (serialIn w), serialOut := serialOut w @ [command @ crlf], clock := ticks\<rparr>)"
  by (cases "serialIn w")
     (simp_all add: sendCommand_def serial_readString_def serial_writeString_def runningTime_def
        serialIn_update_same)

section \<open>C1: the command exchange\<close>

text \<open>
  C1. \<open>sendCommand\<close> without an expected marker returns true at once: it clears the
  buffer, discards one pending read, writes the command and reads neither the clock nor
  the channel again. With an expected marker \<open>e\<close> and the clock reading \<open>start\<close> and
  then \<open>ticks\<close>, it returns true exactly when some poll within the timeout leaves a
  buffer that contains \<open>e\<close> and no earlier poll left a buffer that contains \<open>ERROR\<close>
  (so \<open>e\<close> wins when both arrive in the same snapshot). It returns false exactly when
  \<open>ERROR\<close> is in the buffer of a poll within the timeout and \<open>e\<close> has not been in the
  buffer up to and including that poll, or when the clock reaches the timeout and no poll
  saw either marker.
\<close>

theorem sendCommand_exchange:
  "sendCommand command None timeout w =
     Some (True, w\<lparr>rxData := [], serialIn := tl (serialIn w), serialOut := serialOut w @ [command @ crlf]\<rparr>)
   \<and> (\<forall>start ticks. clock w = start # ticks \<longrightarrow>
        ((\<exists>w'. sendCommand command (Some e) timeout w = Some (True, w')) \<longleftrightarrow>
           (\<exists>k < polls start timeout ticks.
              sublist e (snapshot (tl (serialIn w)) k) \<and>
              (\<forall>j<k. \<not> sublist ''ERROR'' (snapshot (tl (serialIn w)) j))))
      \<and> ((\<exists>w'. sendCommand command (Some e) timeout w = Some (False, w')) \<longleftrightarrow>
           (\<exists>k < polls start timeout ticks.
              sublist ''ERROR'' (snapshot (tl (serialIn w)) k) \<and>
              (\<forall>j<Suc k. \<not> sublist e (snapshot (tl (serialIn w)) j))) \<or>
           (polls start timeout ticks < length ticks \<and>
            (\<forall>k < polls start timeout ticks.
               \<not> sublist e (snapshot (tl (serialIn w)) k) \<and>
               \<not> sublist ''ERROR'' (snapshot (tl (serialIn w)) k)))))"
proof (intro conjI allI impI)
  show "sendCommand command None timeout w =
     Some (True, w\<lparr>rxData := [], serialIn := tl (serialIn w), serialOut := serialOut w @ [command @ crlf]\<rparr>)"
    by (rule sendCommand_None)
next
  fix start ticks assume c: "clock w = start # ticks"
  show "(\<exists>w'. sendCommand command (Some e) timeout w = Some (True, w')) \<longleftrightarrow>
           (\<exists>k < polls start timeout ticks.
              sublist e (snapshot (tl (serialIn w)) k) \<and>
              (\<forall>j<k. \<not> sublist ''ERROR'' (snapshot (tl (serialIn w)) j)))"
    unfolding sendCommand_Some [OF c] sendCommand_loop_true by simp
next
  fix start ticks assume c: "clock w = start # ticks"
  show "(\<exists>w'. sendCommand command (Some e) timeout w = Some (False, w')) \<longleftrightarrow>
           (\<exists>k < polls start timeout ticks.
              sublist ''ERROR'' (snapshot (tl (serialIn w)) k) \<and>
              (\<forall>j<Suc k. \<not> sublist e (snapshot (tl (serialIn w)) j))) \<or>
           (polls start timeout ticks < length ticks \<and>
            (\<forall>k < polls start timeout ticks.
               \<not> sublist e (snapshot (tl (serialIn w)) k) \<and>
               \<not> sublist ''ERROR'' (snapshot (tl (serialIn w)) k)))"
    unfolding sendCommand_Some [OF c] sendCommand_loop_false by simp
qed

text \<open>
  An exchange where the second poll brings \<open>ERROR\<close> and \<open>OK\<close> together: the theorem gives
  success.
\<close>

theorem sendCommand_exchange_witness:
  "(\<exists>w'. sendCommand ''AT'' (Some ''OK'') 1000
      (powerOn\<lparr>clock := [0, 1, 2, 2000], serialIn := [''stale'', ''AT'' @ crlf, ''ERROR'' @ crlf @ ''OK'' @ crlf]\<rparr>)
      = Some (True, w'))"
proof -
  let ?w = "powerOn\<lparr>clock := [0, 1, 2, 2000], serialIn := [''stale'', ''AT'' @ crlf, ''ERROR'' @ crlf @ ''OK'' @ crlf]\<rparr>"
  have c: "clock ?w = 0 # [1, 2, 2000]" by simp
  have "\<exists>k < polls 0 1000 [1, 2, 2000].
              sublist ''OK'' (snapshot (tl (serialIn ?w)) k) \<and>
              (\<forall>j<k. \<not> sublist ''ERROR'' (snapshot (tl (serialIn ?w)) j))"
    by (rule exI [of _ 1]) (simp add: polls_def snapshot_def indexOf_sublist [symmetric])
  with sendCommand_exchange [of "''AT''" 1000 ?w "''OK''"] c show ?thesis by blast
qed

section \<open>What the exchanges write\<close>

text \<open>
  A command exchange writes its command line and nothing else; the accumulator and the
  drain loop write nothing.
\<close>

lemma sendCommand_loop_serialOut:
  "sendCommand_loop e start timeout w = Some (b, w') \<Longrightarrow> serialOut w' = serialOut w"
proof (induction "clock w" arbitrary: w)
  case Nil
  then show ?case using sendCommand_loop_Nil [of w e start timeout] by simp
next
  case (Cons t ts)
  from Cons.hyps(2) have c: "clock w = t # ts" by simp
  let ?w3 = "w\<lparr>clock := ts, serialIn := tl (serialIn w), rxData := rxData w @ snapshot (serialIn w) 0\<rparr>"
  have ih: "sendCommand_loop e start timeout ?w3 = Some (b, w') \<Longrightarrow> serialOut w' = serialOut w"
    using Cons.hyps(1) [of ?w3] by simp
  from Cons.prems show ?case
    unfolding sendCommand_loop_Cons [OF c]
    using ih by (auto simp: Let_def split: if_splits)
qed

lemma sendCommand_Some_Nil:
  "clock w = [] \<Longrightarrow> sendCommand command (Some e) timeout w = None"
  by (cases "serialIn w")
     (simp_all add: sendCommand_def serial_readString_def serial_writeString_def runningTime_def
       )

lemma sendCommand_serialOut:
  assumes r: "sendCommand command expected timeout w = Some (b, w')"
  shows "serialOut w' = serialOut w @ [command @ crlf]"
proof (cases expected)
  case None
  with r show ?thesis by (auto simp: sendCommand_None)
next
  case (Some e)
  show ?thesis
  proof (cases "clock w")
    case Nil
    with r Some show ?thesis by (simp add: sendCommand_Some_Nil)
  next
    case (Cons start ticks)
    from r have "sendCommand_loop e start timeout
       (w\<lparr>rxData := [], serialIn := tl (serialIn w), serialOut := serialOut w @ [command @ crlf], clock := ticks\<rparr>)
       = Some (b, w')"
      unfolding Some sendCommand_Some [OF Cons] .
    from sendCommand_loop_serialOut [OF this] show ?thesis by simp
  qed
qed

lemma getResponse_loop_Nil: "clock w = [] \<Longrightarrow> getResponse_loop e start timeout w = None"
  by (simp add: getResponse_loop.simps runningTime_def)

lemma getResponse_loop_Cons:
  "clock w = t # ts \<Longrightarrow>
   getResponse_loop e start timeout w =
     (if t - start < timeout then
        (let buf = rxData w @ snapshot (serialIn w) 0;
             w3 = w\<lparr>clock := ts, serialIn := tl (serialIn w), rxData := buf\<rparr>
         in if e \<noteq> [] \<and> sublist e buf then Some (buf, w3)
            else getResponse_loop e start timeout w3)
      else Some (rxData w, w\<lparr>clock := ts\<rparr>))"
  apply (subst getResponse_loop.simps)
  apply (cases "serialIn w")
   apply (simp_all add: runningTime_def serial_readString_def snapshot_0 indexOf_sublist Let_def
      basic_pause_def serialIn_update_same)
  done

lemma getResponse_loop_serialOut:
  "getResponse_loop e start timeout w = Some (r, w') \<Longrightarrow> serialOut w' = serialOut w"
proof (induction "clock w" arbitrary: w)
  case Nil
  then show ?case using getResponse_loop_Nil [of w e start timeout] by simp
next
  case (Cons t ts)
  from Cons.hyps(2) have c: "clock w = t # ts" by simp
  let ?w3 = "w\<lparr>clock := ts, serialIn := tl (serialIn w), rxData := rxData w @ snapshot (serialIn w) 0\<rparr>"
  have ih: "getResponse_loop e start timeout ?w3 = Some (r, w') \<Longrightarrow> serialOut w' = serialOut w"
    using Cons.hyps(1) [of ?w3] by simp
  from Cons.prems show ?case
    unfolding getResponse_loop_Cons [OF c]
    using ih by (auto simp: Let_def split: if_splits)
qed

lemma getResponse_serialOut:
  "getResponse e timeout w = Some (r, w') \<Longrightarrow> serialOut w' = serialOut w"
  by (auto simp: getResponse_def runningTime_def Let_def split: list.splits
      dest!: getResponse_loop_serialOut)

lemma drain_loop_serialOut:
  "drain_loop start window w = Some w' \<Longrightarrow> serialOut w' = serialOut w"
proof (induction "clock w" arbitrary: w)
  case Nil
  then show ?case by (simp add: drain_loop.simps runningTime_def)
next
  case (Cons t ts)
  from Cons.hyps(2) have c: "clock w = t # ts" by simp
  show ?case
  proof (cases "t - start < window")
    case False
    with Cons.prems c show ?thesis by (auto simp: drain_loop.simps runningTime_def)
  next
    case True
    obtain s w2 where rd: "serial_readString (w\<lparr>clock := ts\<rparr>) = (s, w2)"
      by (cases "serial_readString (w\<lparr>clock := ts\<rparr>)")
    then have w2: "clock w2 = ts" "serialOut w2 = serialOut w"
      by (auto simp: serial_readString_def split: list.splits)
    let ?w3 = "basic_pause 200 (w2\<lparr>rxData := rxData w2 @ s\<rparr>)"
    from Cons.prems c True rd have "drain_loop start window ?w3 = Some w'"
      by (subst (asm) drain_loop.simps) (simp add: runningTime_def)
    moreover have "ts = clock ?w3" using w2 by (simp add: basic_pause_def)
    ultimately have "serialOut w' = serialOut ?w3" using Cons.hyps(1) by blast
    then show ?thesis using w2 by (simp add: basic_pause_def)
  qed
qed

lemma runningTime_serialOut: "runningTime w = Some (t, w') \<Longrightarrow> serialOut w' = serialOut w"
  by (auto simp: runningTime_def split: list.splits)

section \<open>Running the model on a given board\<close>

text \<open>The equations that run the model on a given board.\<close>

lemmas run_simps =
  sendCommand_def getResponse_def sendCommand_loop.simps getResponse_loop.simps
  drain_loop.simps runningTime_def serial_readString_def serial_writeString_def
  basic_pause_def isWifiConnected_def serial_redirect_def error_def Let_def
  charAt_def substr_def substrFrom_def cleanPath_def extractHost_def showNat.simps
  powerOn_def linkUp_def

text \<open>The equations that evaluate the string functions on given texts.\<close>

lemmas string_simps = indexOf_sublist [symmetric] charAt_def substr_def substrFrom_def Let_def

section \<open>C2: an opened session is closed on every path\<close>

lemma httpGet_closes:
  assumes "esp8266Initialized w" "isWifiConnected w"
    and \<open>sendCommand (''AT+CIPSTART="TCP","'' @ serverIp @ ''",80'') (Some ''CONNECT'') 5000
           (snd (serial_readString (w\<lparr>rxData := []\<rparr>))) = Some (True, w1)\<close>
    and "httpGet serverIp path w = Some (r, w')"
  shows "closedAfter w1 w'"
  using assms unfolding httpGet_def closedAfter_def
  apply (simp add: Let_def split_beta split: option.splits if_splits)
  apply (auto dest!: sendCommand_serialOut drain_loop_serialOut runningTime_serialOut
      simp: serial_writeString_def)
  done

lemma httpPost_closes:
  assumes "esp8266Initialized w" "isWifiConnected w"
    and \<open>sendCommand (''AT+CIPSTART="TCP","'' @ serverIp @ ''",80'') (Some ''CONNECT'') 5000
           (snd (serial_readString (w\<lparr>rxData := []\<rparr>))) = Some (True, w1)\<close>
    and "httpPost serverIp path data w = Some (r, w')"
  shows "closedAfter w1 w'"
  using assms unfolding httpPost_def closedAfter_def
  apply (simp add: Let_def split_beta split: option.splits if_splits)
  apply (auto dest!: sendCommand_serialOut drain_loop_serialOut runningTime_serialOut
      simp: serial_writeString_def)
  done

lemma readFirebaseString_closes:
  assumes "isWifiConnected w" "firebaseDatabaseURL w \<noteq> []" "firebaseApiKey w \<noteq> []"
    and \<open>sendCommand (''AT+CIPSTART="SSL","'' @ extractHost (firebaseDatabaseURL w) @ ''",443'')
           (Some ''OK'') 5000 w = Some (True, w1)\<close>
    and "readFirebaseString deviceName w = Some (r, w')"
  shows "closedAfter w1 w'"
  using assms unfolding readFirebaseString_def readFirebaseString_exchange_def closedAfter_def
  apply (simp add: Let_def split_beta split: option.splits if_splits)
  apply (auto dest!: sendCommand_serialOut getResponse_serialOut
      simp: serial_writeString_def basic_pause_def)
  done

lemma sendFirebaseData_closes:
  assumes "isWifiConnected w" "firebaseDatabaseURL w \<noteq> []" "firebaseApiKey w \<noteq> []"
    and \<open>sendCommand (''AT+CIPSTART="SSL","'' @ extractHost (firebaseDatabaseURL w) @ ''",443'')
           (Some ''OK'') 3000 (w\<lparr>firebaseDataSent := False\<rparr>) = Some (True, w1)\<close>
    and "sendFirebaseData path jsonData w = Some w'"
  shows "closedAfter w1 w'"
  using assms unfolding sendFirebaseData_def closedAfter_def
  apply (simp add: Let_def split_beta isWifiConnected_def split: option.splits if_splits)
  apply (auto dest!: sendCommand_serialOut getResponse_serialOut)
  done

lemma firebaseDelete_closes:
  assumes "isWifiConnected w" "firebaseDatabaseURL w \<noteq> []" "firebaseApiKey w \<noteq> []"
    and \<open>sendCommand (''AT+CIPSTART="SSL","'' @ extractHost (firebaseDatabaseURL w) @ ''",443'')
           (Some ''OK'') 3000 w = Some (True, w1)\<close>
    and "firebaseDelete deviceName w = Some w'"
  shows "closedAfter w1 w'"
  using assms unfolding firebaseDelete_def closedAfter_def
  apply (simp add: Let_def split_beta split: option.splits if_splits)
  apply (auto dest!: sendCommand_serialOut getResponse_serialOut
      simp: serial_writeString_def basic_pause_def)
  done

text \<open>
  Readings that suffice for more waits suffice for fewer; a clock that advances by \<open>T\<close> or
  more between readings suffices for a wait every two readings; and any readings can be
  followed by more so that they suffice.
\<close>

lemma clockLasts_Suc:
  "clockLasts T (Suc n) ticks \<longrightarrow> clockLasts T n ticks"
  "clockReaches T (Suc n) start ticks \<longrightarrow> clockReaches T n start ticks"
  by (induction T n ticks and T n start ticks rule: clockLasts_clockReaches.induct) auto

lemma clockLasts_less: "clockLasts T (Suc n) ticks \<Longrightarrow> clockLasts T n ticks"
  by (simp add: clockLasts_Suc)

lemma clockLasts_steady:
  "sorted_wrt (\<lambda>a b. a + T \<le> b) r \<Longrightarrow> 2 * n \<le> length r \<Longrightarrow> clockLasts T n r"
proof (induction n arbitrary: r)
  case 0
  then show ?case by simp
next
  case (Suc n)
  then obtain s t r' where r: "r = s # t # r'"
    by (cases r; cases "tl r") auto
  with Suc.prems have "clockLasts T n r'" "T \<le> t - s"
    by (auto intro: Suc.IH)
  with r show ?case by simp
qed

lemma clockLasts_append_steady:
  assumes "sorted_wrt (\<lambda>a b. a + T \<le> b) r"
  shows "(\<forall>n. 2 * n \<le> length r \<longrightarrow> (\<forall>t\<in>set ticks. \<forall>u\<in>set r. t + T \<le> u) \<longrightarrow>
            clockLasts T n (ticks @ r)) \<and>
         (\<forall>n start. 2 * n + 2 \<le> length r \<longrightarrow> (\<forall>t\<in>set (start # ticks). \<forall>u\<in>set r. t + T \<le> u) \<longrightarrow>
            clockReaches T n start (ticks @ r))"
proof (induction ticks)
  case Nil
  have "clockReaches T n start r" if l: "2 * n + 2 \<le> length r" and b: "\<forall>u\<in>set r. start + T \<le> u"
    for n start
  proof -
    from l obtain t r' where r: "r = t # r'" by (cases r) auto
    with assms l have "clockLasts T n r'" by (auto intro: clockLasts_steady)
    with r b show ?thesis by simp
  qed
  with assms show ?case by (auto intro: clockLasts_steady)
next
  case (Cons x rest)
  have p: "clockLasts T n ((x # rest) @ r)"
    if "2 * n \<le> length r" "\<forall>t\<in>set (x # rest). \<forall>u\<in>set r. t + T \<le> u" for n
  proof (cases n)
    case 0
    then show ?thesis by simp
  next
    case (Suc m)
    with that Cons.IH have "clockReaches T m x (rest @ r)" by simp
    with Suc show ?thesis by simp
  qed
  have q: "clockReaches T n start ((x # rest) @ r)"
    if "2 * n + 2 \<le> length r" "\<forall>t\<in>set (start # x # rest). \<forall>u\<in>set r. t + T \<le> u" for n start
  proof -
    from that Cons.IH have "clockLasts T n (rest @ r)" "clockReaches T n start (rest @ r)"
      by simp_all
    then show ?thesis by simp
  qed
  from p q show ?case by blast
qed

lemma clockLasts_extend:
  assumes "0 \<le> T"
  shows "\<exists>more. clockLasts T n (ticks @ more)"
proof -
  define B where "B = Max (set (0 # ticks)) + T"
  define r where "r = map (\<lambda>i. B + int i * T) [0..<2 * n]"
  have "sorted_wrt (\<lambda>a b. a + T \<le> b) r"
  proof -
    have "B + int i * T + T \<le> B + int j * T" if "i < j" for i j
    proof -
      from that have "int i + 1 \<le> int j" by simp
      then have "(int i + 1) * T \<le> int j * T" using assms by (rule mult_right_mono)
      then show ?thesis by (simp add: algebra_simps)
    qed
    then show ?thesis unfolding r_def by (simp add: sorted_wrt_map sorted_wrt_iff_nth_less)
  qed
  moreover have "\<forall>t\<in>set ticks. \<forall>u\<in>set r. t + T \<le> u"
  proof (intro ballI)
    fix t u assume t: "t \<in> set ticks" and u: "u \<in> set r"
    from t have m: "t \<le> Max (set (0 # ticks))" by (intro Max_ge) auto
    from u obtain i where i: "u = B + int i * T" unfolding r_def by auto
    from assms have "0 \<le> int i * T" by simp
    with m i show "t + T \<le> u" unfolding B_def by linarith
  qed
  moreover have "2 * n \<le> length r" unfolding r_def by simp
  ultimately have "clockLasts T n (ticks @ r)"
    using clockLasts_append_steady [of T r ticks] by blast
  then show ?thesis ..
qed

text \<open>
  Every wait returns when the clock readings suffice for it, and leaves readings that suffice
  for the waits that follow.
\<close>

lemma sendCommand_loop_returns:
  "clockReaches T n start (clock w) \<Longrightarrow> timeout \<le> T \<Longrightarrow>
   \<exists>b w'. sendCommand_loop e start timeout w = Some (b, w') \<and> clockLasts T n (clock w')"
proof (induction "clock w" arbitrary: w)
  case Nil
  then show ?case by simp
next
  case (Cons t ts)
  from Cons.hyps(2) have c: "clock w = t # ts" by simp
  let ?w3 = "w\<lparr>clock := ts, serialIn := tl (serialIn w), rxData := rxData w @ snapshot (serialIn w) 0\<rparr>"
  from Cons.prems(1) c have g: "clockLasts T n ts" and r: "T \<le> t - start \<or> clockReaches T n start ts"
    by simp_all
  show ?case
  proof (cases "t - start < timeout")
    case False
    then show ?thesis unfolding sendCommand_loop_Cons [OF c] using g by auto
  next
    case True
    with r Cons.prems(2) have "clockReaches T n start ts" by auto
    with Cons.hyps(1) [of ?w3] Cons.prems(2)
    have "\<exists>b w'. sendCommand_loop e start timeout ?w3 = Some (b, w') \<and> clockLasts T n (clock w')"
      by simp
    then show ?thesis unfolding sendCommand_loop_Cons [OF c] using True g by (auto simp: Let_def)
  qed
qed

lemma sendCommand_returns:
  assumes "clockLasts T (Suc n) (clock w)" "timeout \<le> T"
  shows "\<exists>b w'. sendCommand command (Some e) timeout w = Some (b, w') \<and> clockLasts T n (clock w')"
proof (cases "clock w")
  case Nil
  with assms show ?thesis by simp
next
  case (Cons start ticks)
  with assms(1) have "clockReaches T n start ticks" by simp
  then show ?thesis
    unfolding sendCommand_Some [OF Cons]
    by (intro sendCommand_loop_returns) (simp_all add: assms(2))
qed

lemma sendCommand_None_clock:
  "\<exists>w'. sendCommand command None timeout w = Some (True, w') \<and> clock w' = clock w"
  by (simp add: sendCommand_None)

lemma getResponse_loop_returns:
  "clockReaches T n start (clock w) \<Longrightarrow> timeout \<le> T \<Longrightarrow>
   \<exists>r w'. getResponse_loop e start timeout w = Some (r, w') \<and> clockLasts T n (clock w')"
proof (induction "clock w" arbitrary: w)
  case Nil
  then show ?case by simp
next
  case (Cons t ts)
  from Cons.hyps(2) have c: "clock w = t # ts" by simp
  let ?w3 = "w\<lparr>clock := ts, serialIn := tl (serialIn w), rxData := rxData w @ snapshot (serialIn w) 0\<rparr>"
  from Cons.prems(1) c have g: "clockLasts T n ts" and r: "T \<le> t - start \<or> clockReaches T n start ts"
    by simp_all
  show ?case
  proof (cases "t - start < timeout")
    case False
    then show ?thesis unfolding getResponse_loop_Cons [OF c] using g by simp
  next
    case True
    with r Cons.prems(2) have "clockReaches T n start ts" by auto
    with Cons.hyps(1) [of ?w3] Cons.prems(2)
    have "\<exists>r w'. getResponse_loop e start timeout ?w3 = Some (r, w') \<and> clockLasts T n (clock w')"
      by simp
    then show ?thesis unfolding getResponse_loop_Cons [OF c] using True g by (auto simp: Let_def)
  qed
qed

lemma getResponse_returns:
  assumes "clockLasts T (Suc n) (clock w)" "timeout \<le> T"
  shows "\<exists>r w'. getResponse e timeout w = Some (r, w') \<and> clockLasts T n (clock w')"
proof (cases "clock w")
  case Nil
  with assms show ?thesis by simp
next
  case (Cons start ticks)
  with assms(1) have "clockReaches T n start ticks" by simp
  from getResponse_loop_returns [OF _ assms(2), of n start "w\<lparr>rxData := [], clock := ticks\<rparr>" e] this
  show ?thesis by (simp add: getResponse_def runningTime_def Cons)
qed

lemma drain_loop_returns:
  "clockReaches T n start (clock w) \<Longrightarrow> window \<le> T \<Longrightarrow>
   \<exists>w'. drain_loop start window w = Some w' \<and> clockLasts T n (clock w')"
proof (induction "clock w" arbitrary: w)
  case Nil
  then show ?case by simp
next
  case (Cons t ts)
  from Cons.hyps(2) have c: "clock w = t # ts" by simp
  from Cons.prems(1) c have g: "clockLasts T n ts" and r: "T \<le> t - start \<or> clockReaches T n start ts"
    by simp_all
  show ?case
  proof (cases "t - start < window")
    case False
    with c g show ?thesis by (subst drain_loop.simps) (simp add: runningTime_def)
  next
    case True
    obtain s w2 where rd: "serial_readString (w\<lparr>clock := ts\<rparr>) = (s, w2)"
      by (cases "serial_readString (w\<lparr>clock := ts\<rparr>)")
    then have w2: "clock w2 = ts"
      by (auto simp: serial_readString_def split: list.splits)
    let ?w3 = "basic_pause 200 (w2\<lparr>rxData := rxData w2 @ s\<rparr>)"
    have k: "ts = clock ?w3" using w2 by (simp add: basic_pause_def)
    from True r Cons.prems(2) have "clockReaches T n start (clock ?w3)"
      using k by auto
    from Cons.hyps(1) [OF k this Cons.prems(2)]
    have "\<exists>w'. drain_loop start window ?w3 = Some w' \<and> clockLasts T n (clock w')" .
    moreover have "drain_loop start window w = drain_loop start window ?w3"
      using c True rd by (subst drain_loop.simps) (simp add: runningTime_def)
    ultimately show ?thesis by simp
  qed
qed

lemma drain_returns:
  assumes "clockLasts T (Suc n) (clock w)" "window \<le> T"
  shows "\<exists>start w1 w'. runningTime w = Some (start, w1) \<and> drain_loop start window w1 = Some w' \<and>
           clockLasts T n (clock w')"
proof (cases "clock w")
  case Nil
  with assms show ?thesis by simp
next
  case (Cons start ticks)
  with assms(1) have "clockReaches T n start ticks" by simp
  from drain_loop_returns [OF _ assms(2), of n start "w\<lparr>clock := ticks\<rparr>"] this
  show ?thesis by (simp add: runningTime_def Cons)
qed

text \<open>
  Once its session is open, every operation returns when the clock readings suffice for its
  waits: two for a GET, a POST and a delete, three for a read, four for a write.
\<close>

lemma httpGet_returns:
  assumes "esp8266Initialized w" "isWifiConnected w"
    and \<open>sendCommand (''AT+CIPSTART="TCP","'' @ serverIp @ ''",80'') (Some ''CONNECT'') 5000
           (snd (serial_readString (w\<lparr>rxData := []\<rparr>))) = Some (True, w1)\<close>
    and "clockLasts 5000 2 (clock w1)"
  shows "\<exists>r w'. httpGet serverIp path w = Some (r, w')"
proof -
  define req where "req = ''GET '' @ path @ '' HTTP/1.1'' @ crlf @ ''Host: '' @ serverIp @ crlf @
      ''Connection: close'' @ crlf @ crlf"
  from assms(4) have "clockLasts 5000 (Suc (Suc 0)) (clock w1)" by (simp add: numeral_2_eq_2)
  from sendCommand_returns [OF this, of 3000 "''AT+CIPSEND='' @ showNat (length req)" "''>''"]
  obtain ready w2 where s: "sendCommand (''AT+CIPSEND='' @ showNat (length req)) (Some ''>'') 3000 w1
      = Some (ready, w2)" and l: "clockLasts 5000 (Suc 0) (clock w2)"
    by auto
  show ?thesis
  proof (cases ready)
    case False
    with assms(1-3) s show ?thesis
      unfolding httpGet_def req_def by (simp add: Let_def split_beta sendCommand_None)
  next
    case True
    from l have "clockLasts 5000 (Suc 0) (clock (serial_writeString req w2))"
      by (simp add: serial_writeString_def)
    from drain_returns [OF this, of 5000]
    obtain start w4 w5 where "runningTime (serial_writeString req w2) = Some (start, w4)"
      "drain_loop start 5000 w4 = Some w5" by auto
    with True assms(1-3) s show ?thesis
      unfolding httpGet_def req_def by (simp add: Let_def split_beta sendCommand_None)
  qed
qed

lemma httpPost_returns:
  assumes "esp8266Initialized w" "isWifiConnected w"
    and \<open>sendCommand (''AT+CIPSTART="TCP","'' @ serverIp @ ''",80'') (Some ''CONNECT'') 5000
           (snd (serial_readString (w\<lparr>rxData := []\<rparr>))) = Some (True, w1)\<close>
    and "clockLasts 5000 2 (clock w1)"
  shows "\<exists>r w'. httpPost serverIp path data w = Some (r, w')"
proof -
  define req where "req = ''POST '' @ path @ '' HTTP/1.1'' @ crlf @ ''Host: '' @ serverIp @ crlf @
      ''Content-Type: application/json'' @ crlf @
      ''Content-Length: '' @ showNat (length data) @ crlf @
      ''Connection: close'' @ crlf @ crlf @ data"
  from assms(4) have "clockLasts 5000 (Suc (Suc 0)) (clock w1)" by (simp add: numeral_2_eq_2)
  from sendCommand_returns [OF this, of 3000 "''AT+CIPSEND='' @ showNat (length req)" "''>''"]
  obtain ready w2 where s: "sendCommand (''AT+CIPSEND='' @ showNat (length req)) (Some ''>'') 3000 w1
      = Some (ready, w2)" and l: "clockLasts 5000 (Suc 0) (clock w2)"
    by auto
  show ?thesis
  proof (cases ready)
    case False
    with assms(1-3) s show ?thesis
      unfolding httpPost_def req_def by (simp add: Let_def split_beta sendCommand_None)
  next
    case True
    from l have "clockLasts 5000 (Suc 0) (clock (serial_writeString req w2))"
      by (simp add: serial_writeString_def)
    from drain_returns [OF this, of 5000]
    obtain start w4 w5 where "runningTime (serial_writeString req w2) = Some (start, w4)"
      "drain_loop start 5000 w4 = Some w5" by auto
    with True assms(1-3) s show ?thesis
      unfolding httpPost_def req_def by (simp add: Let_def split_beta sendCommand_None)
  qed
qed

lemma firebaseDelete_returns:
  assumes "isWifiConnected w" "firebaseDatabaseURL w \<noteq> []" "firebaseApiKey w \<noteq> []"
    and \<open>sendCommand (''AT+CIPSTART="SSL","'' @ extractHost (firebaseDatabaseURL w) @ ''",443'')
           (Some ''OK'') 3000 w = Some (True, w1)\<close>
    and "clockLasts 1000 2 (clock w1)"
  shows "\<exists>w'. firebaseDelete deviceName w = Some w'"
proof -
  define req where "req = ''DELETE '' @ (''/'' @ cleanPath (firebasePath w @ ''/'' @ deviceName) @
      ''.json?auth='' @ firebaseApiKey w1) @ '' HTTP/1.1'' @ crlf @
      ''Host: '' @ extractHost (firebaseDatabaseURL w) @ crlf @ ''Connection: close'' @ crlf @ crlf"
  define cmd where "cmd = ''AT+CIPSEND='' @ showNat (length req)"
  have d: "firebaseDelete deviceName w =
      (case sendCommand cmd (Some ''OK'') 1000 w1 of
         None \<Rightarrow> None
       | Some (ready, w2) \<Rightarrow>
           if \<not> ready then
             (case sendCommand ''AT+CIPCLOSE'' (Some ''OK'') 1000 w2 of
                None \<Rightarrow> None | Some (ack, w3) \<Rightarrow> Some w3)
           else
             (case sendCommand ''AT+CIPCLOSE'' (Some ''OK'') 500
                     (basic_pause 500 (serial_writeString req w2)) of
                None \<Rightarrow> None | Some (ack, w4) \<Rightarrow> Some w4))"
    unfolding firebaseDelete_def Let_def cmd_def req_def
    by (simp only: assms(1-4) simp_thms if_True if_False option.case prod.case)
  from assms(5) have "clockLasts 1000 (Suc (Suc 0)) (clock w1)" by (simp add: numeral_2_eq_2)
  from sendCommand_returns [OF this, of 1000 cmd "''OK''"]
  obtain ready w2 where s: "sendCommand cmd (Some ''OK'') 1000 w1 = Some (ready, w2)"
    and l: "clockLasts 1000 (Suc 0) (clock w2)"
    by auto
  show ?thesis
  proof (cases ready)
    case False
    from sendCommand_returns [OF l, of 1000 "''AT+CIPCLOSE''" "''OK''"]
    obtain ack w3 where "sendCommand ''AT+CIPCLOSE'' (Some ''OK'') 1000 w2 = Some (ack, w3)" by auto
    with False s show ?thesis unfolding d by simp
  next
    case True
    from l have "clockLasts 1000 (Suc 0) (clock (basic_pause 500 (serial_writeString req w2)))"
      by (simp add: serial_writeString_def basic_pause_def)
    from sendCommand_returns [OF this, of 500 "''AT+CIPCLOSE''" "''OK''"]
    obtain ack w4 where "sendCommand ''AT+CIPCLOSE'' (Some ''OK'') 500
        (basic_pause 500 (serial_writeString req w2)) = Some (ack, w4)" by auto
    with True s show ?thesis unfolding d by simp
  qed
qed


lemma readFirebaseString_returns:
  assumes "isWifiConnected w" "firebaseDatabaseURL w \<noteq> []" "firebaseApiKey w \<noteq> []"
    and \<open>sendCommand (''AT+CIPSTART="SSL","'' @ extractHost (firebaseDatabaseURL w) @ ''",443'')
           (Some ''OK'') 5000 w = Some (True, w1)\<close>
    and "clockLasts 3000 3 (clock w1)"
  shows "\<exists>r w'. readFirebaseString deviceName w = Some (r, w')"
proof -
  define req where "req = ''GET '' @ (''/'' @ cleanPath (firebasePath w @ ''/'' @ deviceName @ ''/value'') @
      ''.json?auth='' @ firebaseApiKey w1) @ '' HTTP/1.1'' @ crlf @
      ''Host: '' @ extractHost (firebaseDatabaseURL w) @ crlf @ ''Connection: close'' @ crlf @ crlf"
  define cmd where "cmd = ''AT+CIPSEND='' @ showNat (length req)"
  have d: "readFirebaseString_exchange deviceName w =
      (case sendCommand cmd (Some ''OK'') 2000 w1 of
         None \<Rightarrow> None
       | Some (ready, w2) \<Rightarrow>
           if \<not> ready then
             (case sendCommand ''AT+CIPCLOSE'' (Some ''OK'') 1000 w2 of
                None \<Rightarrow> None | Some (ack, w3) \<Rightarrow> Some (None, w3))
           else
             (case getResponse [] 3000 (basic_pause 100 (serial_writeString req w2)) of
                None \<Rightarrow> None
              | Some (response, w4) \<Rightarrow>
                  (case sendCommand ''AT+CIPCLOSE'' (Some ''OK'') 500 w4 of
                     None \<Rightarrow> None | Some (ack, w5) \<Rightarrow> Some (Some response, w5))))"
    unfolding readFirebaseString_exchange_def Let_def cmd_def req_def
    by (simp only: assms(1-4) simp_thms if_True if_False option.case prod.case)
  from assms(5) have "clockLasts 3000 (Suc (Suc (Suc 0))) (clock w1)"
    by (simp add: numeral_3_eq_3)
  from sendCommand_returns [OF this, of 2000 cmd "''OK''"]
  obtain ready w2 where s: "sendCommand cmd (Some ''OK'') 2000 w1 = Some (ready, w2)"
    and l: "clockLasts 3000 (Suc (Suc 0)) (clock w2)"
    by auto
  have "\<exists>r w'. readFirebaseString_exchange deviceName w = Some (r, w')"
  proof (cases ready)
    case False
    from sendCommand_returns [OF clockLasts_less [OF l], of 1000 "''AT+CIPCLOSE''" "''OK''"]
    obtain ack w3 where "sendCommand ''AT+CIPCLOSE'' (Some ''OK'') 1000 w2 = Some (ack, w3)" by auto
    with False s show ?thesis unfolding d by simp
  next
    case True
    from l have "clockLasts 3000 (Suc (Suc 0)) (clock (basic_pause 100 (serial_writeString req w2)))"
      by (simp add: serial_writeString_def basic_pause_def)
    from getResponse_returns [OF this, of 3000 "[]"]
    obtain response w4 where g: "getResponse [] 3000 (basic_pause 100 (serial_writeString req w2))
        = Some (response, w4)" and l4: "clockLasts 3000 (Suc 0) (clock w4)" by auto
    from sendCommand_returns [OF l4, of 500 "''AT+CIPCLOSE''" "''OK''"]
    obtain ack w5 where "sendCommand ''AT+CIPCLOSE'' (Some ''OK'') 500 w4 = Some (ack, w5)" by auto
    with True s g show ?thesis unfolding d by simp
  qed
  then show ?thesis unfolding readFirebaseString_def by (auto split: option.splits)
qed

lemma sendFirebaseData_returns:
  assumes "isWifiConnected w" "firebaseDatabaseURL w \<noteq> []" "firebaseApiKey w \<noteq> []"
    and \<open>sendCommand (''AT+CIPSTART="SSL","'' @ extractHost (firebaseDatabaseURL w) @ ''",443'')
           (Some ''OK'') 3000 (w\<lparr>firebaseDataSent := False\<rparr>) = Some (True, w1)\<close>
    and "clockLasts 1500 4 (clock w1)"
  shows "\<exists>w'. sendFirebaseData path jsonData w = Some w'"
proof -
  define req where "req = ''PATCH '' @ (''/'' @ cleanPath path @ ''.json?auth='' @ firebaseApiKey w1) @
      '' HTTP/1.1'' @ crlf @
      ''Host: '' @ extractHost (firebaseDatabaseURL (w\<lparr>firebaseDataSent := False\<rparr>)) @ crlf @
      ''Content-Type: application/json'' @ crlf @
      ''Content-Length: '' @ showNat (length jsonData) @ crlf @
      ''Connection: close'' @ crlf @ crlf @ jsonData"
  define cmd where "cmd = ''AT+CIPSEND='' @ showNat (length req)"
  have g: "isWifiConnected (w\<lparr>firebaseDataSent := False\<rparr>)"
    "firebaseDatabaseURL (w\<lparr>firebaseDataSent := False\<rparr>) \<noteq> []"
    "firebaseApiKey (w\<lparr>firebaseDataSent := False\<rparr>) \<noteq> []"
    using assms(1-3) by (simp_all add: isWifiConnected_def)
  have o: \<open>sendCommand (''AT+CIPSTART="SSL","'' @
      extractHost (firebaseDatabaseURL (w\<lparr>firebaseDataSent := False\<rparr>)) @ ''",443'')
           (Some ''OK'') 3000 (w\<lparr>firebaseDataSent := False\<rparr>) = Some (True, w1)\<close>
    using assms(4) by simp
  have d: "sendFirebaseData path jsonData w =
      (case sendCommand cmd (Some ''OK'') 1000 w1 of
         None \<Rightarrow> None
       | Some (ready, w2) \<Rightarrow>
           if \<not> ready then
             (case sendCommand ''AT+CIPCLOSE'' (Some ''OK'') 1000 w2 of
                None \<Rightarrow> None | Some (ack, w3) \<Rightarrow> Some w3)
           else
             (case sendCommand req None 100 w2 of
                None \<Rightarrow> None
              | Some (ack, w3) \<Rightarrow>
                  (case getResponse ''SEND OK'' 1500 w3 of
                     None \<Rightarrow> None
                   | Some (sendOk, w4) \<Rightarrow>
                       if sendOk = [] then
                         (case sendCommand ''AT+CIPCLOSE'' (Some ''OK'') 500 w4 of
                            None \<Rightarrow> None | Some (ack, w5) \<Rightarrow> Some w5)
                       else
                         (case getResponse [] 1500 w4 of
                            None \<Rightarrow> None
                          | Some (response, w5) \<Rightarrow>
                              (case sendCommand ''AT+CIPCLOSE'' (Some ''OK'') 500
                                      (if response \<noteq> [] \<and> indexOf response ''200'' \<ge> 0
                                       then w5\<lparr>firebaseDataSent := True\<rparr> else w5) of
                                 None \<Rightarrow> None | Some (ack, w7) \<Rightarrow> Some w7)))))"
    unfolding sendFirebaseData_def Let_def cmd_def req_def
    by (simp only: g o simp_thms if_True if_False option.case prod.case)
  from assms(5) have "clockLasts 1500 (Suc (Suc (Suc (Suc 0)))) (clock w1)"
    by (simp add: eval_nat_numeral)
  from sendCommand_returns [OF this, of 1000 cmd "''OK''"]
  obtain ready w2 where s: "sendCommand cmd (Some ''OK'') 1000 w1 = Some (ready, w2)"
    and l: "clockLasts 1500 (Suc (Suc (Suc 0))) (clock w2)"
    by auto
  show ?thesis
  proof (cases ready)
    case False
    from sendCommand_returns [OF clockLasts_less [OF clockLasts_less [OF l]], of 1000 "''AT+CIPCLOSE''" "''OK''"]
    obtain ack w3 where "sendCommand ''AT+CIPCLOSE'' (Some ''OK'') 1000 w2 = Some (ack, w3)" by auto
    with False s show ?thesis unfolding d by simp
  next
    case True
    from sendCommand_None_clock [of req 100 w2]
    obtain w3 where s3: "sendCommand req None 100 w2 = Some (True, w3)" and c3: "clock w3 = clock w2"
      by auto
    from l c3 have "clockLasts 1500 (Suc (Suc (Suc 0))) (clock w3)" by simp
    from getResponse_returns [OF this, of 1500 "''SEND OK''"]
    obtain sendOk w4 where g4: "getResponse ''SEND OK'' 1500 w3 = Some (sendOk, w4)"
      and l4: "clockLasts 1500 (Suc (Suc 0)) (clock w4)" by auto
    show ?thesis
    proof (cases "sendOk = []")
      case e: True
      from sendCommand_returns [OF clockLasts_less [OF l4], of 500 "''AT+CIPCLOSE''" "''OK''"]
      obtain ack w5 where "sendCommand ''AT+CIPCLOSE'' (Some ''OK'') 500 w4 = Some (ack, w5)" by auto
      with True s s3 g4 e show ?thesis unfolding d by simp
    next
      case e: False
      from getResponse_returns [OF l4, of 1500 "[]"]
      obtain response w5 where g5: "getResponse [] 1500 w4 = Some (response, w5)"
        and l5: "clockLasts 1500 (Suc 0) (clock w5)" by auto
      let ?w6 = "if response \<noteq> [] \<and> indexOf response ''200'' \<ge> 0
                 then w5\<lparr>firebaseDataSent := True\<rparr> else w5"
      from l5 have "clockLasts 1500 (Suc 0) (clock ?w6)" by simp
      from sendCommand_returns [OF this, of 500 "''AT+CIPCLOSE''" "''OK''"]
      obtain ack w7 where "sendCommand ''AT+CIPCLOSE'' (Some ''OK'') 500 ?w6 = Some (ack, w7)" by auto
      with True s s3 g4 g5 e show ?thesis unfolding d by simp
    qed
  qed
qed

text \<open>
  C2. For \<open>httpGet\<close>, \<open>httpPost\<close>, \<open>readFirebaseString\<close>, \<open>sendFirebaseData\<close> and
  \<open>firebaseDelete\<close>: when the guards of the call pass and its session-open exchange
  (\<open>AT+CIPSTART\<close>) returns true, leaving the board \<open>w1\<close>, then whichever way the call
  goes after the session was opened, the last thing it has written to the channel when it
  returns is the close command \<open>AT+CIPCLOSE\<close>; and the call does return, with the close
  command written last, when the clock readings left on \<open>w1\<close> suffice for the waits of the
  call (\<open>clockLasts\<close>, with the longest timeout of the call and the number of its waits).
\<close>

theorem session_closed_on_every_path:
  \<open>(\<forall>serverIp path w w1.
      esp8266Initialized w \<and> isWifiConnected w \<and>
      sendCommand (''AT+CIPSTART="TCP","'' @ serverIp @ ''",80'') (Some ''CONNECT'') 5000
        (snd (serial_readString (w\<lparr>rxData := []\<rparr>))) = Some (True, w1) \<longrightarrow>
      (\<forall>r w'. httpGet serverIp path w = Some (r, w') \<longrightarrow> closedAfter w1 w') \<and>
      (clockLasts 5000 2 (clock w1) \<longrightarrow>
         (\<exists>r w'. httpGet serverIp path w = Some (r, w') \<and> closedAfter w1 w')))
   \<and> (\<forall>serverIp path data w w1.
      esp8266Initialized w \<and> isWifiConnected w \<and>
      sendCommand (''AT+CIPSTART="TCP","'' @ serverIp @ ''",80'') (Some ''CONNECT'') 5000
        (snd (serial_readString (w\<lparr>rxData := []\<rparr>))) = Some (True, w1) \<longrightarrow>
      (\<forall>r w'. httpPost serverIp path data w = Some (r, w') \<longrightarrow> closedAfter w1 w') \<and>
      (clockLasts 5000 2 (clock w1) \<longrightarrow>
         (\<exists>r w'. httpPost serverIp path data w = Some (r, w') \<and> closedAfter w1 w')))
   \<and> (\<forall>deviceName w w1.
      isWifiConnected w \<and> firebaseDatabaseURL w \<noteq> [] \<and> firebaseApiKey w \<noteq> [] \<and>
      sendCommand (''AT+CIPSTART="SSL","'' @ extractHost (firebaseDatabaseURL w) @ ''",443'')
        (Some ''OK'') 5000 w = Some (True, w1) \<longrightarrow>
      (\<forall>r w'. readFirebaseString deviceName w = Some (r, w') \<longrightarrow> closedAfter w1 w') \<and>
      (clockLasts 3000 3 (clock w1) \<longrightarrow>
         (\<exists>r w'. readFirebaseString deviceName w = Some (r, w') \<and> closedAfter w1 w')))
   \<and> (\<forall>path jsonData w w1.
      isWifiConnected w \<and> firebaseDatabaseURL w \<noteq> [] \<and> firebaseApiKey w \<noteq> [] \<and>
      sendCommand (''AT+CIPSTART="SSL","'' @ extractHost (firebaseDatabaseURL w) @ ''",443'')
        (Some ''OK'') 3000 (w\<lparr>firebaseDataSent := False\<rparr>) = Some (True, w1) \<longrightarrow>
      (\<forall>w'. sendFirebaseData path jsonData w = Some w' \<longrightarrow> closedAfter w1 w') \<and>
      (clockLasts 1500 4 (clock w1) \<longrightarrow>
         (\<exists>w'. sendFirebaseData path jsonData w = Some w' \<and> closedAfter w1 w')))
   \<and> (\<forall>deviceName w w1.
      isWifiConnected w \<and> firebaseDatabaseURL w \<noteq> [] \<and> firebaseApiKey w \<noteq> [] \<and>
      sendCommand (''AT+CIPSTART="SSL","'' @ extractHost (firebaseDatabaseURL w) @ ''",443'')
        (Some ''OK'') 3000 w = Some (True, w1) \<longrightarrow>
      (\<forall>w'. firebaseDelete deviceName w = Some w' \<longrightarrow> closedAfter w1 w') \<and>
      (clockLasts 1000 2 (clock w1) \<longrightarrow>
         (\<exists>w'. firebaseDelete deviceName w = Some w' \<and> closedAfter w1 w')))\<close>
proof (intro conjI allI impI; elim conjE)
  fix serverIp path w w1 r w'
  assume "esp8266Initialized w" "isWifiConnected w"
    \<open>sendCommand (''AT+CIPSTART="TCP","'' @ serverIp @ ''",80'') (Some ''CONNECT'') 5000
        (snd (serial_readString (w\<lparr>rxData := []\<rparr>))) = Some (True, w1)\<close>
    "httpGet serverIp path w = Some (r, w')"
  then show "closedAfter w1 w'" by (rule httpGet_closes)
next
  fix serverIp path w w1
  assume a: "esp8266Initialized w" "isWifiConnected w"
    \<open>sendCommand (''AT+CIPSTART="TCP","'' @ serverIp @ ''",80'') (Some ''CONNECT'') 5000
        (snd (serial_readString (w\<lparr>rxData := []\<rparr>))) = Some (True, w1)\<close>
    and c: "clockLasts 5000 2 (clock w1)"
  from httpGet_returns [OF a c] obtain r w' where "httpGet serverIp path w = Some (r, w')"
    by blast
  with httpGet_closes [OF a this]
  show "\<exists>r w'. httpGet serverIp path w = Some (r, w') \<and> closedAfter w1 w'" by blast
next
  fix serverIp path data w w1 r w'
  assume "esp8266Initialized w" "isWifiConnected w"
    \<open>sendCommand (''AT+CIPSTART="TCP","'' @ serverIp @ ''",80'') (Some ''CONNECT'') 5000
        (snd (serial_readString (w\<lparr>rxData := []\<rparr>))) = Some (True, w1)\<close>
    "httpPost serverIp path data w = Some (r, w')"
  then show "closedAfter w1 w'" by (rule httpPost_closes)
next
  fix serverIp path data w w1
  assume a: "esp8266Initialized w" "isWifiConnected w"
    \<open>sendCommand (''AT+CIPSTART="TCP","'' @ serverIp @ ''",80'') (Some ''CONNECT'') 5000
        (snd (serial_readString (w\<lparr>rxData := []\<rparr>))) = Some (True, w1)\<close>
    and c: "clockLasts 5000 2 (clock w1)"
  from httpPost_returns [OF a c] obtain r w' where "httpPost serverIp path data w = Some (r, w')"
    by blast
  with httpPost_closes [OF a this]
  show "\<exists>r w'. httpPost serverIp path data w = Some (r, w') \<and> closedAfter w1 w'" by blast
next
  fix deviceName w w1 r w'
  assume "isWifiConnected w" "firebaseDatabaseURL w \<noteq> []" "firebaseApiKey w \<noteq> []"
    \<open>sendCommand (''AT+CIPSTART="SSL","'' @ extractHost (firebaseDatabaseURL w) @ ''",443'')
        (Some ''OK'') 5000 w = Some (True, w1)\<close>
    "readFirebaseString deviceName w = Some (r, w')"
  then show "closedAfter w1 w'" by (rule readFirebaseString_closes)
next
  fix deviceName w w1
  assume a: "isWifiConnected w" "firebaseDatabaseURL w \<noteq> []" "firebaseApiKey w \<noteq> []"
    \<open>sendCommand (''AT+CIPSTART="SSL","'' @ extractHost (firebaseDatabaseURL w) @ ''",443'')
        (Some ''OK'') 5000 w = Some (True, w1)\<close>
    and c: "clockLasts 3000 3 (clock w1)"
  from readFirebaseString_returns [OF a c]
  obtain r w' where "readFirebaseString deviceName w = Some (r, w')" by blast
  with readFirebaseString_closes [OF a this]
  show "\<exists>r w'. readFirebaseString deviceName w = Some (r, w') \<and> closedAfter w1 w'" by blast
next
  fix path jsonData w w1 w'
  assume "isWifiConnected w" "firebaseDatabaseURL w \<noteq> []" "firebaseApiKey w \<noteq> []"
    \<open>sendCommand (''AT+CIPSTART="SSL","'' @ extractHost (firebaseDatabaseURL w) @ ''",443'')
        (Some ''OK'') 3000 (w\<lparr>firebaseDataSent := False\<rparr>) = Some (True, w1)\<close>
    "sendFirebaseData path jsonData w = Some w'"
  then show "closedAfter w1 w'" by (rule sendFirebaseData_closes)
next
  fix path jsonData w w1
  assume a: "isWifiConnected w" "firebaseDatabaseURL w \<noteq> []" "firebaseApiKey w \<noteq> []"
    \<open>sendCommand (''AT+CIPSTART="SSL","'' @ extractHost (firebaseDatabaseURL w) @ ''",443'')
        (Some ''OK'') 3000 (w\<lparr>firebaseDataSent := False\<rparr>) = Some (True, w1)\<close>
    and c: "clockLasts 1500 4 (clock w1)"
  from sendFirebaseData_returns [OF a c]
  obtain w' where "sendFirebaseData path jsonData w = Some w'" by blast
  with sendFirebaseData_closes [OF a this]
  show "\<exists>w'. sendFirebaseData path jsonData w = Some w' \<and> closedAfter w1 w'" by blast
next
  fix deviceName w w1 w'
  assume "isWifiConnected w" "firebaseDatabaseURL w \<noteq> []" "firebaseApiKey w \<noteq> []"
    \<open>sendCommand (''AT+CIPSTART="SSL","'' @ extractHost (firebaseDatabaseURL w) @ ''",443'')
        (Some ''OK'') 3000 w = Some (True, w1)\<close>
    "firebaseDelete deviceName w = Some w'"
  then show "closedAfter w1 w'" by (rule firebaseDelete_closes)
next
  fix deviceName w w1
  assume a: "isWifiConnected w" "firebaseDatabaseURL w \<noteq> []" "firebaseApiKey w \<noteq> []"
    \<open>sendCommand (''AT+CIPSTART="SSL","'' @ extractHost (firebaseDatabaseURL w) @ ''",443'')
        (Some ''OK'') 3000 w = Some (True, w1)\<close>
    and c: "clockLasts 1000 2 (clock w1)"
  from firebaseDelete_returns [OF a c]
  obtain w' where "firebaseDelete deviceName w = Some w'" by blast
  with firebaseDelete_closes [OF a this]
  show "\<exists>w'. firebaseDelete deviceName w = Some w' \<and> closedAfter w1 w'" by blast
qed

text \<open>
  One call of each operation on a connected, configured board whose session opens: the
  readings left after the open exchange suffice, so the theorem gives that the call returns
  with the close command as its last write.
\<close>

theorem session_closed_on_every_path_witness:
  \<open>(\<exists>w1 r w'.
      sendCommand (''AT+CIPSTART="TCP","'' @ ''10.0.0.2'' @ ''",80'') (Some ''CONNECT'') 5000
        (snd (serial_readString
           (linkUp\<lparr>clock := [0, 1, 10, 5010, 5020, 10020],
                   serialIn := [[], [], ''CONNECT'' @ crlf], rxData := []\<rparr>)))
        = Some (True, w1) \<and>
      clockLasts 5000 2 (clock w1) \<and>
      httpGet ''10.0.0.2'' ''/''
        (linkUp\<lparr>clock := [0, 1, 10, 5010, 5020, 10020],
                serialIn := [[], [], ''CONNECT'' @ crlf]\<rparr>) = Some (r, w') \<and>
      closedAfter w1 w')
   \<and> (\<exists>w1 r w'.
      sendCommand (''AT+CIPSTART="TCP","'' @ ''10.0.0.2'' @ ''",80'') (Some ''CONNECT'') 5000
        (snd (serial_readString
           (linkUp\<lparr>clock := [0, 1, 10, 11, 20, 5020, 5030, 10030],
                   serialIn := [[], [], ''CONNECT'' @ crlf, [], ''OK'' @ crlf @ ''> ''],
                   rxData := []\<rparr>)))
        = Some (True, w1) \<and>
      clockLasts 5000 2 (clock w1) \<and>
      httpPost ''10.0.0.2'' ''/api/data'' ''{"temp":25}''
        (linkUp\<lparr>clock := [0, 1, 10, 11, 20, 5020, 5030, 10030],
                serialIn := [[], [], ''CONNECT'' @ crlf, [], ''OK'' @ crlf @ ''> '']\<rparr>)
        = Some (r, w') \<and>
      closedAfter w1 w')
   \<and> (\<exists>w1 r w'.
      sendCommand (''AT+CIPSTART="SSL","'' @
          extractHost (firebaseDatabaseURL
            (linkUp\<lparr>clock := [0, 1, 10, 3010, 3020, 6020, 6030, 9030],
                    serialIn := [[], ''OK'' @ crlf]\<rparr>)) @ ''",443'')
        (Some ''OK'') 5000
        (linkUp\<lparr>clock := [0, 1, 10, 3010, 3020, 6020, 6030, 9030], serialIn := [[], ''OK'' @ crlf]\<rparr>)
        = Some (True, w1) \<and>
      clockLasts 3000 3 (clock w1) \<and>
      readFirebaseString ''temperature''
        (linkUp\<lparr>clock := [0, 1, 10, 3010, 3020, 6020, 6030, 9030], serialIn := [[], ''OK'' @ crlf]\<rparr>)
        = Some (r, w') \<and>
      closedAfter w1 w')
   \<and> (\<exists>w1 w'.
      sendCommand (''AT+CIPSTART="SSL","'' @
          extractHost (firebaseDatabaseURL
            (linkUp\<lparr>clock := [0, 1, 10, 1510, 1520, 3020, 3030, 4530, 4540, 6040],
                    serialIn := [[], ''OK'' @ crlf]\<rparr>)) @ ''",443'')
        (Some ''OK'') 3000
        (linkUp\<lparr>clock := [0, 1, 10, 1510, 1520, 3020, 3030, 4530, 4540, 6040],
                serialIn := [[], ''OK'' @ crlf], firebaseDataSent := False\<rparr>)
        = Some (True, w1) \<and>
      clockLasts 1500 4 (clock w1) \<and>
      sendFirebaseData ''iot/lamp'' ''{"value":1}''
        (linkUp\<lparr>clock := [0, 1, 10, 1510, 1520, 3020, 3030, 4530, 4540, 6040],
                serialIn := [[], ''OK'' @ crlf]\<rparr>)
        = Some w' \<and>
      closedAfter w1 w')
   \<and> (\<exists>w1 w'.
      sendCommand (''AT+CIPSTART="SSL","'' @
          extractHost (firebaseDatabaseURL
            (linkUp\<lparr>clock := [0, 1, 10, 1010, 1020, 2020], serialIn := [[], ''OK'' @ crlf]\<rparr>)) @
          ''",443'')
        (Some ''OK'') 3000
        (linkUp\<lparr>clock := [0, 1, 10, 1010, 1020, 2020], serialIn := [[], ''OK'' @ crlf]\<rparr>)
        = Some (True, w1) \<and>
      clockLasts 1000 2 (clock w1) \<and>
      firebaseDelete ''lamp''
        (linkUp\<lparr>clock := [0, 1, 10, 1010, 1020, 2020], serialIn := [[], ''OK'' @ crlf]\<rparr>)
        = Some w' \<and>
      closedAfter w1 w')\<close>
proof (intro conjI)
  let ?w = \<open>linkUp\<lparr>clock := [0, 1, 10, 5010, 5020, 10020],
                  serialIn := [[], [], ''CONNECT'' @ crlf]\<rparr>\<close>
  have g: "esp8266Initialized ?w \<and> isWifiConnected ?w"
    by (simp add: linkUp_def powerOn_def isWifiConnected_def)
  obtain w1 where o: \<open>sendCommand (''AT+CIPSTART="TCP","'' @ ''10.0.0.2'' @ ''",80'')
       (Some ''CONNECT'') 5000 (snd (serial_readString (?w\<lparr>rxData := []\<rparr>))) = Some (True, w1)\<close>
    and c: "clockLasts 5000 2 (clock w1)"
    by (simp add: run_simps numeral_2_eq_2)
  have "\<exists>r w'. httpGet ''10.0.0.2'' ''/'' ?w = Some (r, w') \<and> closedAfter w1 w'"
    by (rule session_closed_on_every_path
          [THEN conjunct1, rule_format, THEN conjunct2, rule_format])
       (intro conjI, rule g [THEN conjunct1], rule g [THEN conjunct2], rule o, rule c)
  with o c show \<open>\<exists>w1 r w'.
      sendCommand (''AT+CIPSTART="TCP","'' @ ''10.0.0.2'' @ ''",80'') (Some ''CONNECT'') 5000
        (snd (serial_readString (?w\<lparr>rxData := []\<rparr>))) = Some (True, w1) \<and>
      clockLasts 5000 2 (clock w1) \<and>
      httpGet ''10.0.0.2'' ''/'' ?w = Some (r, w') \<and> closedAfter w1 w'\<close>
    by blast
next
  let ?w = \<open>linkUp\<lparr>clock := [0, 1, 10, 11, 20, 5020, 5030, 10030],
                serialIn := [[], [], ''CONNECT'' @ crlf, [], ''OK'' @ crlf @ ''> '']\<rparr>\<close>
  have g: "esp8266Initialized ?w \<and> isWifiConnected ?w"
    by (simp add: linkUp_def powerOn_def isWifiConnected_def)
  obtain w1 where o: \<open>sendCommand (''AT+CIPSTART="TCP","'' @ ''10.0.0.2'' @ ''",80'')
       (Some ''CONNECT'') 5000 (snd (serial_readString (?w\<lparr>rxData := []\<rparr>))) = Some (True, w1)\<close>
    and c: "clockLasts 5000 2 (clock w1)"
    by (simp add: run_simps numeral_2_eq_2)
  have \<open>\<exists>r w'. httpPost ''10.0.0.2'' ''/api/data'' ''{"temp":25}'' ?w = Some (r, w') \<and>
      closedAfter w1 w'\<close>
    by (rule session_closed_on_every_path
          [THEN conjunct2, THEN conjunct1, rule_format, THEN conjunct2, rule_format])
       (intro conjI, rule g [THEN conjunct1], rule g [THEN conjunct2], rule o, rule c)
  with o c show \<open>\<exists>w1 r w'.
      sendCommand (''AT+CIPSTART="TCP","'' @ ''10.0.0.2'' @ ''",80'') (Some ''CONNECT'') 5000
        (snd (serial_readString (?w\<lparr>rxData := []\<rparr>))) = Some (True, w1) \<and>
      clockLasts 5000 2 (clock w1) \<and>
      httpPost ''10.0.0.2'' ''/api/data'' ''{"temp":25}'' ?w = Some (r, w') \<and>
      closedAfter w1 w'\<close>
    by blast
next
  let ?w = \<open>linkUp\<lparr>clock := [0, 1, 10, 3010, 3020, 6020, 6030, 9030],
                  serialIn := [[], ''OK'' @ crlf]\<rparr>\<close>
  have g: "isWifiConnected ?w \<and> firebaseDatabaseURL ?w \<noteq> [] \<and> firebaseApiKey ?w \<noteq> []"
    by (simp add: linkUp_def powerOn_def isWifiConnected_def)
  obtain w1 where o: \<open>sendCommand (''AT+CIPSTART="SSL","'' @
       extractHost (firebaseDatabaseURL ?w) @ ''",443'') (Some ''OK'') 5000 ?w = Some (True, w1)\<close>
    and c: "clockLasts 3000 3 (clock w1)"
    by (simp add: run_simps numeral_3_eq_3)
  have "\<exists>r w'. readFirebaseString ''temperature'' ?w = Some (r, w') \<and> closedAfter w1 w'"
    by (rule session_closed_on_every_path
          [THEN conjunct2, THEN conjunct2, THEN conjunct1, rule_format, THEN conjunct2, rule_format])
       (intro conjI, rule g [THEN conjunct1], rule g [THEN conjunct2, THEN conjunct1],
        rule g [THEN conjunct2, THEN conjunct2], rule o, rule c)
  with o c show \<open>\<exists>w1 r w'.
      sendCommand (''AT+CIPSTART="SSL","'' @ extractHost (firebaseDatabaseURL ?w) @ ''",443'')
        (Some ''OK'') 5000 ?w = Some (True, w1) \<and>
      clockLasts 3000 3 (clock w1) \<and>
      readFirebaseString ''temperature'' ?w = Some (r, w') \<and> closedAfter w1 w'\<close>
    by blast
next
  let ?w = \<open>linkUp\<lparr>clock := [0, 1, 10, 1510, 1520, 3020, 3030, 4530, 4540, 6040],
                  serialIn := [[], ''OK'' @ crlf]\<rparr>\<close>
  have g: "isWifiConnected ?w \<and> firebaseDatabaseURL ?w \<noteq> [] \<and> firebaseApiKey ?w \<noteq> []"
    by (simp add: linkUp_def powerOn_def isWifiConnected_def)
  obtain w1 where o: \<open>sendCommand (''AT+CIPSTART="SSL","'' @
       extractHost (firebaseDatabaseURL ?w) @ ''",443'') (Some ''OK'') 3000
       (?w\<lparr>firebaseDataSent := False\<rparr>) = Some (True, w1)\<close>
    and c: "clockLasts 1500 4 (clock w1)"
    by (simp add: run_simps eval_nat_numeral)
  have \<open>\<exists>w'. sendFirebaseData ''iot/lamp'' ''{"value":1}'' ?w = Some w' \<and> closedAfter w1 w'\<close>
    by (rule session_closed_on_every_path
          [THEN conjunct2, THEN conjunct2, THEN conjunct2, THEN conjunct1, rule_format,
           THEN conjunct2, rule_format])
       (intro conjI, rule g [THEN conjunct1], rule g [THEN conjunct2, THEN conjunct1],
        rule g [THEN conjunct2, THEN conjunct2], rule o, rule c)
  with o c show \<open>\<exists>w1 w'.
      sendCommand (''AT+CIPSTART="SSL","'' @ extractHost (firebaseDatabaseURL ?w) @ ''",443'')
        (Some ''OK'') 3000 (?w\<lparr>firebaseDataSent := False\<rparr>) = Some (True, w1) \<and>
      clockLasts 1500 4 (clock w1) \<and>
      sendFirebaseData ''iot/lamp'' ''{"value":1}'' ?w = Some w' \<and> closedAfter w1 w'\<close>
    by blast
next
  let ?w = \<open>linkUp\<lparr>clock := [0, 1, 10, 1010, 1020, 2020], serialIn := [[], ''OK'' @ crlf]\<rparr>\<close>
  have g: "isWifiConnected ?w \<and> firebaseDatabaseURL ?w \<noteq> [] \<and> firebaseApiKey ?w \<noteq> []"
    by (simp add: linkUp_def powerOn_def isWifiConnected_def)
  obtain w1 where o: \<open>sendCommand (''AT+CIPSTART="SSL","'' @
       extractHost (firebaseDatabaseURL ?w) @ ''",443'') (Some ''OK'') 3000 ?w = Some (True, w1)\<close>
    and c: "clockLasts 1000 2 (clock w1)"
    by (simp add: run_simps numeral_2_eq_2)
  have "\<exists>w'. firebaseDelete ''lamp'' ?w = Some w' \<and> closedAfter w1 w'"
    by (rule session_closed_on_every_path
          [THEN conjunct2, THEN conjunct2, THEN conjunct2, THEN conjunct2, rule_format,
           THEN conjunct2, rule_format])
       (intro conjI, rule g [THEN conjunct1], rule g [THEN conjunct2, THEN conjunct1],
        rule g [THEN conjunct2, THEN conjunct2], rule o, rule c)
  with o c show \<open>\<exists>w1 w'.
      sendCommand (''AT+CIPSTART="SSL","'' @ extractHost (firebaseDatabaseURL ?w) @ ''",443'')
        (Some ''OK'') 3000 ?w = Some (True, w1) \<and>
      clockLasts 1000 2 (clock w1) \<and>
      firebaseDelete ''lamp'' ?w = Some w' \<and> closedAfter w1 w'\<close>
    by blast
qed

section \<open>C5: bring-up and the initialized flag\<close>

text \<open>
  An exchange leaves the flag alone, so after \<open>init\<close> the flag is true exactly when it
  was true before or all three steps succeeded.
\<close>

lemma sendCommand_loop_flags:
  "sendCommand_loop e start timeout w = Some (b, w') \<Longrightarrow>
   esp8266Initialized w' = esp8266Initialized w"
proof (induction "clock w" arbitrary: w)
  case Nil
  then show ?case using sendCommand_loop_Nil [of w e start timeout] by simp
next
  case (Cons t ts)
  from Cons.hyps(2) have c: "clock w = t # ts" by simp
  let ?w3 = "w\<lparr>clock := ts, serialIn := tl (serialIn w), rxData := rxData w @ snapshot (serialIn w) 0\<rparr>"
  have ih: "sendCommand_loop e start timeout ?w3 = Some (b, w') \<Longrightarrow>
      esp8266Initialized w' = esp8266Initialized w"
    using Cons.hyps(1) [of ?w3] by simp
  from Cons.prems show ?case
    unfolding sendCommand_loop_Cons [OF c]
    using ih by (auto simp: Let_def split: if_splits)
qed

lemma sendCommand_flags:
  assumes r: "sendCommand command expected timeout w = Some (b, w')"
  shows "esp8266Initialized w' = esp8266Initialized w"
proof (cases expected)
  case None
  with r show ?thesis by (auto simp: sendCommand_None)
next
  case (Some e)
  show ?thesis
  proof (cases "clock w")
    case Nil
    with r Some show ?thesis by (simp add: sendCommand_Some_Nil)
  next
    case (Cons start ticks)
    from r have "sendCommand_loop e start timeout
       (w\<lparr>rxData := [], serialIn := tl (serialIn w), serialOut := serialOut w @ [command @ crlf], clock := ticks\<rparr>)
       = Some (b, w')"
      unfolding Some sendCommand_Some [OF Cons] .
    from sendCommand_loop_flags [OF this] show ?thesis by simp
  qed
qed

lemma init_flag:
  assumes "init tx rx baudrate w = Some w'"
  shows "esp8266Initialized w' \<longleftrightarrow>
     esp8266Initialized w \<or>
     (\<exists>w1 w2 w3. sendCommand ''AT+RST'' (Some ''ready'') 5000 w = Some (True, w1) \<and>
        sendCommand ''ATE0'' (Some ''OK'') 1000 w1 = Some (True, w2) \<and>
        sendCommand ''AT+CWMODE=1'' (Some ''OK'') 1000 w2 = Some (True, w3))"
  using assms unfolding init_def
  apply (simp add: Let_def basic_pause_def serial_redirect_def error_def
      split: option.splits if_splits prod.splits)
  apply (auto dest: sendCommand_flags)
  done

text \<open>
  C5. \<open>init\<close> never clears \<open>esp8266Initialized\<close>. On a board where the flag is already
  true and the module does not answer the reset command before its timeout, \<open>init\<close>
  stops after \<open>AT+RST\<close> and the flag is still true: an aborted bring-up does not leave
  the flag false.
\<close>

theorem init_keeps_stale_flag:
  "\<exists>w'. init 8 12 115200 (powerOn\<lparr>esp8266Initialized := True, clock := [0, 5000]\<rparr>) = Some w' \<and>
        esp8266Initialized w' \<and> serialOut w' = [''AT+RST'' @ crlf]"
  by (simp add: init_def run_simps)

section \<open>C3: the write and its acknowledgement\<close>

text \<open>
  The flag is cleared before anything else: a write that stops at its guards, or whose
  session does not open, ends with the flag false.
\<close>

lemma sendCommand_loop_sent:
  "sendCommand_loop e start timeout w = Some (b, w') \<Longrightarrow>
   firebaseDataSent w' = firebaseDataSent w"
proof (induction "clock w" arbitrary: w)
  case Nil
  then show ?case using sendCommand_loop_Nil [of w e start timeout] by simp
next
  case (Cons t ts)
  from Cons.hyps(2) have c: "clock w = t # ts" by simp
  let ?w3 = "w\<lparr>clock := ts, serialIn := tl (serialIn w), rxData := rxData w @ snapshot (serialIn w) 0\<rparr>"
  have ih: "sendCommand_loop e start timeout ?w3 = Some (b, w') \<Longrightarrow>
      firebaseDataSent w' = firebaseDataSent w"
    using Cons.hyps(1) [of ?w3] by simp
  from Cons.prems show ?case
    unfolding sendCommand_loop_Cons [OF c]
    using ih by (auto simp: Let_def split: if_splits)
qed

lemma sendCommand_sent:
  assumes r: "sendCommand command expected timeout w = Some (b, w')"
  shows "firebaseDataSent w' = firebaseDataSent w"
proof (cases expected)
  case None
  with r show ?thesis by (auto simp: sendCommand_None)
next
  case (Some e)
  show ?thesis
  proof (cases "clock w")
    case Nil
    with r Some show ?thesis by (simp add: sendCommand_Some_Nil)
  next
    case (Cons start ticks)
    from r have "sendCommand_loop e start timeout
       (w\<lparr>rxData := [], serialIn := tl (serialIn w), serialOut := serialOut w @ [command @ crlf], clock := ticks\<rparr>)
       = Some (b, w')"
      unfolding Some sendCommand_Some [OF Cons] .
    from sendCommand_loop_sent [OF this] show ?thesis by simp
  qed
qed

lemma sendFirebaseData_clears_first:
  "\<not> isWifiConnected w \<or> firebaseDatabaseURL w = [] \<or> firebaseApiKey w = [] \<Longrightarrow>
   sendFirebaseData path jsonData w = Some (w\<lparr>firebaseDataSent := False\<rparr>)"
  by (auto simp: sendFirebaseData_def Let_def isWifiConnected_def)

lemma sendFirebaseData_not_opened:
  assumes "isWifiConnected w" "firebaseDatabaseURL w \<noteq> []" "firebaseApiKey w \<noteq> []"
    and \<open>sendCommand (''AT+CIPSTART="SSL","'' @ extractHost (firebaseDatabaseURL w) @ ''",443'')
           (Some ''OK'') 3000 (w\<lparr>firebaseDataSent := False\<rparr>) = Some (False, w1)\<close>
  shows "sendFirebaseData path jsonData w = Some w1 \<and> \<not> firebaseDataSent w1"
  using assms sendCommand_sent [OF assms(4)]
  by (simp add: sendFirebaseData_def Let_def isWifiConnected_def)

text \<open>
  C3. \<open>sendFirebaseData\<close> tests the result of its wait for \<open>SEND OK\<close> against the empty
  string only. On a board where the module answers the request with \<open>Recv 158 bytes\<close> and the
  text \<open>SEND OK\<close> never arrives, the wait returns that other text, the write goes on to
  the status check, finds \<open>200\<close> and sets \<open>firebaseDataSent\<close>.
\<close>

theorem sendFirebaseData_flag_without_ack:
  \<open>\<exists>w'. sendFirebaseData ''iot'' ''{"counter":{"value":5}}''
          (linkUp\<lparr>clock := [0, 1, 10, 11, 20, 21, 1520, 1530, 1531, 3030, 3040, 3041],
                  serialIn := [[], ''CONNECT'' @ crlf @ crlf @ ''OK'' @ crlf, [], ''OK'' @ crlf @ ''> '', [],
                               ''Recv 158 bytes'' @ crlf, ''+IPD,15:HTTP/1.1 200 OK'', [],
                               ''CLOSED'' @ crlf @ crlf @ ''OK'' @ crlf]\<rparr>) = Some w' \<and>
        firebaseDataSent w' \<and>
        \<not> sublist ''SEND OK'' (concat [[], ''CONNECT'' @ crlf @ crlf @ ''OK'' @ crlf, [], ''OK'' @ crlf @ ''> '', [],
                               ''Recv 158 bytes'' @ crlf, ''+IPD,15:HTTP/1.1 200 OK'', [],
                               ''CLOSED'' @ crlf @ crlf @ ''OK'' @ crlf])\<close>
  by (simp add: sendFirebaseData_def run_simps indexOf_sublist [symmetric])

section \<open>C8: the length passed with the send-intent command\<close>

text \<open>
  \<open>httpGet\<close> and \<open>httpPost\<close> announce the length of the request they write: after the
  session is open they write the send-intent command with that length and then either the
  close command alone or the request and the close command.
\<close>

lemma httpGet_send_length:
  assumes "esp8266Initialized w" "isWifiConnected w"
    and \<open>sendCommand (''AT+CIPSTART="TCP","'' @ serverIp @ ''",80'') (Some ''CONNECT'') 5000
           (snd (serial_readString (w\<lparr>rxData := []\<rparr>))) = Some (True, w1)\<close>
    and "httpGet serverIp path w = Some (r, w')"
    and "httpRequest = ''GET '' @ path @ '' HTTP/1.1'' @ crlf @ ''Host: '' @ serverIp @ crlf @
           ''Connection: close'' @ crlf @ crlf"
  shows "serialOut w' = serialOut w1 @
           [''AT+CIPSEND='' @ showNat (length httpRequest) @ crlf, ''AT+CIPCLOSE'' @ crlf]
       \<or> serialOut w' = serialOut w1 @
           [''AT+CIPSEND='' @ showNat (length httpRequest) @ crlf, httpRequest, ''AT+CIPCLOSE'' @ crlf]"
  using assms unfolding httpGet_def
  apply (simp add: Let_def split_beta split: option.splits if_splits)
  apply (auto dest!: sendCommand_serialOut drain_loop_serialOut runningTime_serialOut
      simp: serial_writeString_def)
  done

lemma httpPost_send_length:
  assumes "esp8266Initialized w" "isWifiConnected w"
    and \<open>sendCommand (''AT+CIPSTART="TCP","'' @ serverIp @ ''",80'') (Some ''CONNECT'') 5000
           (snd (serial_readString (w\<lparr>rxData := []\<rparr>))) = Some (True, w1)\<close>
    and "httpPost serverIp path data w = Some (r, w')"
    and "httpRequest = ''POST '' @ path @ '' HTTP/1.1'' @ crlf @ ''Host: '' @ serverIp @ crlf @
           ''Content-Type: application/json'' @ crlf @
           ''Content-Length: '' @ showNat (length data) @ crlf @
           ''Connection: close'' @ crlf @ crlf @ data"
  shows "serialOut w' = serialOut w1 @
           [''AT+CIPSEND='' @ showNat (length httpRequest) @ crlf, ''AT+CIPCLOSE'' @ crlf]
       \<or> serialOut w' = serialOut w1 @
           [''AT+CIPSEND='' @ showNat (length httpRequest) @ crlf, httpRequest, ''AT+CIPCLOSE'' @ crlf]"
  using assms unfolding httpPost_def
  apply (simp add: Let_def split_beta split: option.splits if_splits)
  apply (auto dest!: sendCommand_serialOut drain_loop_serialOut runningTime_serialOut
      simp: serial_writeString_def)
  done

text \<open>
  C8. \<open>getRawFromServer\<close> and \<open>sendToServer\<close> announce two bytes more than they
  write: for a request of 53 characters the send-intent command of \<open>getRawFromServer\<close> is
  \<open>AT+CIPSEND=55\<close>, for a request of 71 characters that of \<open>sendToServer\<close> is
  \<open>AT+CIPSEND=73\<close>, and the request alone is what follows on the channel.
\<close>

theorem getRawFromServer_send_length:
  \<open>(\<exists>r w'. getRawFromServer ''10.0.0.2'' ''net'' ''pw'' ''/''
          (linkUp\<lparr>clock := [0, 1, 10, 11, 20, 8020],
                  serialIn := [[], [], ''CONNECT'' @ crlf, [], ''OK'' @ crlf @ ''> '']\<rparr>) = Some (r, w') \<and>
        serialOut w' =
          [''AT+CIPSTART="TCP","10.0.0.2",80'' @ crlf,
           ''AT+CIPSEND=55'' @ crlf,
           ''GET / HTTP/1.1'' @ crlf @ ''Host: 10.0.0.2'' @ crlf @ ''Connection: close'' @ crlf @ crlf,
           ''AT+CIPCLOSE'' @ crlf])
   \<and> length (''GET / HTTP/1.1'' @ crlf @ ''Host: 10.0.0.2'' @ crlf @ ''Connection: close'' @ crlf @ crlf) = 53
   \<and> (\<exists>w'. sendToServer ''10.0.0.2'' ''net'' ''pw'' ''sensor=123''
          (linkUp\<lparr>clock := [0, 1, 10, 11],
                  serialIn := [[], ''CONNECT'' @ crlf, [], ''OK'' @ crlf @ ''> '']\<rparr>) = Some (True, w') \<and>
        serialOut w' =
          [''AT+CIPSTART="TCP","10.0.0.2",80'' @ crlf,
           ''AT+CIPSEND=73'' @ crlf,
           ''GET /tes.php?sensor=123 HTTP/1.1'' @ crlf @ ''Host: 10.0.0.2'' @ crlf @
             ''Connection: close'' @ crlf @ crlf,
           ''AT+CIPCLOSE'' @ crlf])
   \<and> length (''GET /tes.php?sensor=123 HTTP/1.1'' @ crlf @ ''Host: 10.0.0.2'' @ crlf @
             ''Connection: close'' @ crlf @ crlf) = 71\<close>
  by (simp add: getRawFromServer_def sendToServer_def connectWiFi_def run_simps)

section \<open>C7: the decimal parser\<close>

text \<open>
  The rounding on known values: the binary64 numbers written \<open>0.1\<close> and \<open>12.34\<close>,
  and a tie, \<open>2^53 + 1\<close>, which goes to the even significand.
\<close>

lemma fl_known_values:
  "fl (1 / 10) = 3602879701896397 / 36028797018963968"
  "fl (1234 / 100) = 3473401212609495 / 281474976710656"
  "fl 9007199254740993 = 9007199254740992"
  "fl 9007199254740995 = 9007199254740996"
  by code_simp+

lemma parse_example_1: "parseStringToNumber ''-12.34'' = fl (- (1234 / 100))"
  by code_simp

lemma parse_example_2: "parseStringToNumber ''0042'' = 42"
  by code_simp

lemma parse_example_3: "parseStringToNumber ''12.3.4'' = fl (1234 / 100)"
  by code_simp

lemma isDigit_not_sign: "isDigit c \<Longrightarrow> c \<noteq> CHR ''-'' \<and> c \<noteq> CHR ''.''"
  by (auto simp: isDigit_def)

lemma parseStringToNumber_loop_fold:
  "parseStringToNumber_loop i s st =
     fold (\<lambda>(j, c). parseStringToNumber_step j c) (zip [i ..< i + length s] s) st"
proof (induction s arbitrary: i st)
  case Nil
  show ?case by simp
next
  case (Cons c cs)
  have "[i ..< i + length (c # cs)] = i # [Suc i ..< Suc i + length cs]"
    by (subst upt_rec) simp
  then show ?case using Cons.IH [of "Suc i"] by simp
qed

text \<open>
  C7. \<open>parseStringToNumber\<close> parses \<open>-12.34\<close> to the number written \<open>-12.34\<close>, \<open>0042\<close>
  to 42 and \<open>12.3.4\<close> to the number written \<open>12.34\<close>. It is one pass over the
  characters with their positions, from the left. In that pass a minus at position 0 sets
  the negative flag; a digit before any dot replaces the result by ten times the result
  plus the digit; a digit after a dot increments the place and adds the digit divided by
  ten to the power of the place; a dot sets the decimal flag, so a second dot changes
  nothing; and every other character, a minus past position 0 among them, changes
  nothing.
\<close>

theorem parseStringToNumber_single_pass:
  "parseStringToNumber ''-12.34'' = fl (- (1234 / 100))
   \<and> parseStringToNumber ''0042'' = 42
   \<and> parseStringToNumber ''12.3.4'' = fl (1234 / 100)
   \<and> parseStringToNumber valueStr =
       (let st = fold (\<lambda>(j, c). parseStringToNumber_step j c) (zip [0 ..< length valueStr] valueStr)
                   \<lparr>result = 0, isNegative = False, hasDecimal = False, decimalPlace = 0\<rparr>
        in if isNegative st then - result st else result st)
   \<and> parseStringToNumber_step 0 (CHR ''-'') st = st\<lparr>isNegative := True\<rparr>
   \<and> (isDigit c \<and> \<not> hasDecimal st \<longrightarrow>
        parseStringToNumber_step i c st =
          st\<lparr>result := num_add (num_mul (result st) 10) (of_nat (of_char c - 48))\<rparr>)
   \<and> (isDigit c \<and> hasDecimal st \<longrightarrow>
        parseStringToNumber_step i c st =
          st\<lparr>decimalPlace := decimalPlace st + 1,
             result := num_add (result st)
                         (num_div (of_nat (of_char c - 48)) (Math_pow 10 (decimalPlace st + 1)))\<rparr>)
   \<and> parseStringToNumber_step i (CHR ''.'') st = st\<lparr>hasDecimal := True\<rparr>
   \<and> (hasDecimal st \<longrightarrow> parseStringToNumber_step i (CHR ''.'') st = st)
   \<and> (\<not> isDigit c \<and> c \<noteq> CHR ''.'' \<and> \<not> (c = CHR ''-'' \<and> i = 0) \<longrightarrow>
        parseStringToNumber_step i c st = st)"
proof (intro conjI impI)
  show "parseStringToNumber valueStr =
       (let st = fold (\<lambda>(j, c). parseStringToNumber_step j c) (zip [0 ..< length valueStr] valueStr)
                   \<lparr>result = 0, isNegative = False, hasDecimal = False, decimalPlace = 0\<rparr>
        in if isNegative st then - result st else result st)"
    by (simp add: parseStringToNumber_def parseStringToNumber_loop_fold)
qed (auto simp: parse_example_1 parse_example_2 parse_example_3 parseStringToNumber_step_def
      Let_def dest: isDigit_not_sign)

text \<open>The text \<open>-0.5x\<close>: the letter in position 4 is skipped.\<close>

theorem parseStringToNumber_single_pass_witness:
  "parseStringToNumber ''-0.5x'' = - (1 / 2) \<and>
   parseStringToNumber_step 4 (CHR ''x'')
     \<lparr>result = 1 / 2, isNegative = True, hasDecimal = True, decimalPlace = 1\<rparr> =
     \<lparr>result = 1 / 2, isNegative = True, hasDecimal = True, decimalPlace = 1\<rparr>"
proof -
  have c: "\<not> isDigit (CHR ''x'') \<and> CHR ''x'' \<noteq> CHR ''.'' \<and> \<not> (CHR ''x'' = CHR ''-'' \<and> (4::nat) = 0)"
    by (simp add: isDigit_def)
  have "parseStringToNumber ''-0.5x'' = - (1 / 2)"
    by code_simp
  with c parseStringToNumber_single_pass [of "''-0.5x''"
      "\<lparr>result = 1 / 2, isNegative = True, hasDecimal = True, decimalPlace = 1\<rparr>" "CHR ''x''" 4]
  show ?thesis by blast
qed

section \<open>C6: host extraction\<close>

lemma extractHost_alt:
  "extractHost url =
     (let h1 = (if sublist ''https://'' url then drop 8 url else url);
          h2 = (if sublist ''http://'' h1 then drop 7 h1 else h1)
      in if h2 \<noteq> [] \<and> last h2 = CHR ''/'' then butlast h2 else h2)"
proof -
  have slash: "charAt h (int (length h) - 1) = ''/'' \<longleftrightarrow> h \<noteq> [] \<and> last h = CHR ''/''" for h
    by (cases h rule: rev_cases) (auto simp: charAt_def nth_append)
  have cut: "substr h 0 (int (length h) - 1) = butlast h" for h
    by (simp add: substr_def butlast_conv_take nat_diff_distrib')
  show ?thesis
    unfolding extractHost_def Let_def slash cut indexOf_sublist substrFrom_def
    by auto
qed

lemma no_marker_snoc_slash:
  assumes "\<not> sublist m h" "h = [] \<or> last h \<noteq> CHR ''/''" "m = m' @ ''//''"
  shows "\<not> sublist m (h @ ''/'')"
proof
  assume "sublist m (h @ ''/'')"
  with assms(1) have "suffix m (h @ ''/'')" by (simp add: sublist_snoc)
  then obtain zs where "h @ ''/'' = zs @ m" by (auto simp: suffix_def)
  with assms(3) have "h @ ''/'' = (zs @ m' @ ''/'') @ ''/''" by simp
  then have "h = zs @ m' @ ''/''" by (simp only: append_same_eq)
  with assms(2) show False by simp
qed

lemma https_in_http: "sublist ''https://'' (''http://'' @ t) \<longleftrightarrow> sublist ''https://'' t"
  by (simp add: sublist_Cons_right)

lemma extractHost_suffix:
  "\<exists>pre. url = pre @ extractHost url \<or> url = pre @ extractHost url @ ''/''"
proof -
  define h1 where "h1 = (if sublist ''https://'' url then drop 8 url else url)"
  define h2 where "h2 = (if sublist ''http://'' h1 then drop 7 h1 else h1)"
  have u: "url = (if sublist ''https://'' url then take 8 url else []) @ h1"
    unfolding h1_def by simp
  have v: "h1 = (if sublist ''http://'' h1 then take 7 h1 else []) @ h2"
    unfolding h2_def by simp
  obtain pre where pre: "url = pre @ h2"
    using u v by (metis append.assoc)
  have e: "extractHost url = (if h2 \<noteq> [] \<and> last h2 = CHR ''/'' then butlast h2 else h2)"
    unfolding extractHost_alt h1_def h2_def Let_def ..
  show ?thesis
  proof (cases "h2 \<noteq> [] \<and> last h2 = CHR ''/''")
    case True
    then have "h2 = butlast h2 @ ''/''" using append_butlast_last_id [of h2] by simp
    with pre have "url = pre @ butlast h2 @ ''/''" by simp
    with e True show ?thesis by auto
  next
    case False
    with e pre show ?thesis by auto
  qed
qed

lemma extractHost_plain:
  assumes "\<not> sublist ''https://'' h" "\<not> sublist ''http://'' h" "h = [] \<or> last h \<noteq> CHR ''/''"
    and "scheme \<in> {[], ''http://'', ''https://''}" "slash \<in> {[], ''/''}"
  shows "extractHost (scheme @ h @ slash) = h"
proof -
  from assms(5) have sl: "slash = [] \<or> slash = ''/''" by simp
  have a: "\<not> sublist ''https://'' (h @ slash)"
  proof (cases "slash = []")
    case True
    then show ?thesis using assms(1) by simp
  next
    case False
    with sl have s: "slash = ''/''" by simp
    show ?thesis unfolding s
      by (rule no_marker_snoc_slash [OF assms(1) assms(3), of "''https:''"]) simp
  qed
  have b: "\<not> sublist ''http://'' (h @ slash)"
  proof (cases "slash = []")
    case True
    then show ?thesis using assms(2) by simp
  next
    case False
    with sl have s: "slash = ''/''" by simp
    show ?thesis unfolding s
      by (rule no_marker_snoc_slash [OF assms(2) assms(3), of "''http:''"]) simp
  qed
  have c: "(if h @ slash \<noteq> [] \<and> last (h @ slash) = CHR ''/'' then butlast (h @ slash) else h @ slash) = h"
    using assms(3) sl by auto
  from assms(4) have "scheme = [] \<or> scheme = ''http://'' \<or> scheme = ''https://''" by simp
  then consider "scheme = []" | "scheme = ''http://''" | "scheme = ''https://''" by blast
  then show ?thesis
  proof cases
    case 1
    show ?thesis unfolding 1 append_Nil extractHost_alt Let_def if_not_P [OF a] if_not_P [OF b] c ..
  next
    case 2
    have n: "\<not> sublist ''https://'' (''http://'' @ h @ slash)"
      unfolding https_in_http by (rule a)
    have y: "sublist ''http://'' (''http://'' @ h @ slash)" by (rule sublist_append_rightI)
    have d: "drop 7 (''http://'' @ h @ slash) = h @ slash" by simp
    show ?thesis unfolding 2 extractHost_alt Let_def if_not_P [OF n] if_P [OF y] d c ..
  next
    case 3
    have y: "sublist ''https://'' (''https://'' @ h @ slash)" by (rule sublist_append_rightI)
    have d: "drop 8 (''https://'' @ h @ slash) = h @ slash" by simp
    show ?thesis unfolding 3 extractHost_alt Let_def if_P [OF y] d if_not_P [OF b] c ..
  qed
qed

text \<open>
  C6, as amended. For every input, \<open>extractHost\<close> returns an end part of the input, with
  at most one trailing slash removed from it. For an input made of at most one scheme
  prefix (\<open>https://\<close> or \<open>http://\<close>), a host text that contains neither scheme marker
  and does not end in a slash, and at most one trailing slash, it returns exactly the host
  text, and applying it a second time changes nothing.
\<close>

theorem extractHost_strips_once:
  "(\<exists>pre. url = pre @ extractHost url \<or> url = pre @ extractHost url @ ''/'')
   \<and> (\<not> sublist ''https://'' h \<and> \<not> sublist ''http://'' h \<and> (h = [] \<or> last h \<noteq> CHR ''/'') \<and>
      scheme \<in> {[], ''http://'', ''https://''} \<and> slash \<in> {[], ''/''} \<longrightarrow>
        extractHost (scheme @ h @ slash) = h \<and>
        extractHost (extractHost (scheme @ h @ slash)) = extractHost (scheme @ h @ slash))"
proof (intro conjI impI)
  show "\<exists>pre. url = pre @ extractHost url \<or> url = pre @ extractHost url @ ''/''"
    by (rule extractHost_suffix)
next
  assume a: "\<not> sublist ''https://'' h \<and> \<not> sublist ''http://'' h \<and> (h = [] \<or> last h \<noteq> CHR ''/'') \<and>
      scheme \<in> {[], ''http://'', ''https://''} \<and> slash \<in> {[], ''/''}"
  then show e: "extractHost (scheme @ h @ slash) = h"
    using extractHost_plain [of h scheme slash] by blast
  from a have "extractHost ([] @ h @ []) = h"
    using extractHost_plain [of h "[]" "[]"] by blast
  with e show "extractHost (extractHost (scheme @ h @ slash)) = extractHost (scheme @ h @ slash)"
    by simp
qed

text \<open>
  C6 as stated fails: with two trailing slashes, one application removes one slash and
  the next one removes the other, so applying twice is not applying once.
\<close>

theorem extractHost_not_idempotent:
  "extractHost (extractHost ''a//'') \<noteq> extractHost ''a//''"
  by (simp add: extractHost_def string_simps)

text \<open>A database URL with scheme and trailing slash.\<close>

theorem extractHost_strips_once_witness:
  "extractHost ''https://demo.firebaseio.com/'' = ''demo.firebaseio.com'' \<and>
   extractHost (extractHost ''https://demo.firebaseio.com/'') = extractHost ''https://demo.firebaseio.com/''"
proof -
  have "\<not> sublist ''https://'' ''demo.firebaseio.com'' \<and> \<not> sublist ''http://'' ''demo.firebaseio.com'' \<and>
      (''demo.firebaseio.com'' = [] \<or> last ''demo.firebaseio.com'' \<noteq> CHR ''/'') \<and>
      ''https://'' \<in> {[], ''http://'', ''https://''} \<and> ''/'' \<in> {[], ''/''}"
    by (simp add: indexOf_sublist [symmetric])
  with extractHost_strips_once [of "[]" "''demo.firebaseio.com''" "''https://''" "''/''"]
  show ?thesis unfolding append.simps by blast
qed

section \<open>C4: a read without 200 OK\<close>

text \<open>
  C4, as amended. When the response that \<open>readFirebaseString\<close> has read does not contain
  \<open>200 OK\<close> anywhere, in the status line, the headers or the body, the read returns the
  empty string.
\<close>

theorem readFirebaseString_requires_200:
  "readFirebaseString_exchange deviceName w = Some (Some response, w') \<and>
   \<not> sublist ''200 OK'' response \<longrightarrow>
     readFirebaseString deviceName w = Some ([], w')"
  by (simp add: readFirebaseString_def readFirebaseString_parse_def indexOf_sublist [symmetric])

text \<open>
  C4 as stated fails: the test looks at the whole response. A response with the status
  line \<open>HTTP/1.1 404 Not Found\<close> and the body \<open>"200 OK"\<close> passes it, and the read
  returns the body's text.
\<close>

theorem readFirebaseString_200_in_body:
  \<open>\<exists>w'. readFirebaseString_exchange ''status''
          (linkUp\<lparr>clock := [0, 1, 10, 11, 20, 21, 3020, 3030, 3031],
                  serialIn := [[], ''OK'', [], ''OK'',
                     ''HTTP/1.1 404 Not Found'' @ crlf @ crlf @ ''"200 OK"'', [], ''OK'']\<rparr>)
          = Some (Some (''HTTP/1.1 404 Not Found'' @ crlf @ crlf @ ''"200 OK"''), w') \<and>
        \<not> sublist ''200 OK'' (statusLine (''HTTP/1.1 404 Not Found'' @ crlf @ crlf @ ''"200 OK"'')) \<and>
        readFirebaseString ''status''
          (linkUp\<lparr>clock := [0, 1, 10, 11, 20, 21, 3020, 3030, 3031],
                  serialIn := [[], ''OK'', [], ''OK'',
                     ''HTTP/1.1 404 Not Found'' @ crlf @ crlf @ ''"200 OK"'', [], ''OK'']\<rparr>)
          = Some (''200 OK'', w')\<close>
  by (simp add: readFirebaseString_def readFirebaseString_exchange_def readFirebaseString_parse_def
      statusLine_def indexOfFrom_def run_simps indexOf_sublist [symmetric])

text \<open>A 404 response whose text has no \<open>200 OK\<close>.\<close>

theorem readFirebaseString_requires_200_witness:
  \<open>\<exists>w'. readFirebaseString_exchange ''status''
          (linkUp\<lparr>clock := [0, 1, 10, 11, 20, 21, 3020, 3030, 3031],
                  serialIn := [[], ''OK'', [], ''OK'',
                     ''HTTP/1.1 404 Not Found'' @ crlf @ crlf @ ''"on"'', [], ''OK'']\<rparr>)
          = Some (Some (''HTTP/1.1 404 Not Found'' @ crlf @ crlf @ ''"on"''), w') \<and>
        readFirebaseString ''status''
          (linkUp\<lparr>clock := [0, 1, 10, 11, 20, 21, 3020, 3030, 3031],
                  serialIn := [[], ''OK'', [], ''OK'',
                     ''HTTP/1.1 404 Not Found'' @ crlf @ crlf @ ''"on"'', [], ''OK'']\<rparr>)
          = Some ([], w')\<close>
proof -
  let ?w = \<open>linkUp\<lparr>clock := [0, 1, 10, 11, 20, 21, 3020, 3030, 3031],
                  serialIn := [[], ''OK'', [], ''OK'',
                     ''HTTP/1.1 404 Not Found'' @ crlf @ crlf @ ''"on"'', [], ''OK'']\<rparr>\<close>
  let ?r = \<open>''HTTP/1.1 404 Not Found'' @ crlf @ crlf @ ''"on"''\<close>
  obtain w' where x: "readFirebaseString_exchange ''status'' ?w = Some (Some ?r, w')"
    by (simp add: readFirebaseString_exchange_def run_simps indexOf_sublist [symmetric])
  have n: "\<not> sublist ''200 OK'' ?r"
    by (simp add: indexOf_sublist [symmetric])
  from readFirebaseString_requires_200 [of "''status''" ?w ?r w'] x n
  have "readFirebaseString ''status'' ?w = Some ([], w')" by blast
  with x show ?thesis by blast
qed

section \<open>C9: the value taken from the body\<close>

lemma indexOf_single:
  "indexOf s [c] = (if c \<in> set s then int (length (takeWhile (\<lambda>x. x \<noteq> c) s)) else -1)"
  by (induction s) (auto simp: Let_def)

lemma readFirebaseString_clean_eq:
  "readFirebaseString_clean cs acc =
     (if acc \<noteq> [] then acc @ takeWhile numberChar cs
      else takeWhile numberChar (dropWhile (\<lambda>c. \<not> numberChar c) cs))"
  by (induction cs arbitrary: acc) (auto simp: numberChar_def)

lemma quoted_value:
  assumes "body = dquote # rest"
  shows "indexOfFrom body [dquote] 1 > 0 \<longleftrightarrow> dquote \<in> set rest"
    and "dquote \<in> set rest \<Longrightarrow>
         substr body 1 (indexOfFrom body [dquote] 1 - 1) = takeWhile (\<lambda>c. c \<noteq> dquote) rest"
proof -
  have i: "indexOfFrom body [dquote] 1 =
        (if dquote \<in> set rest then int (length (takeWhile (\<lambda>x. x \<noteq> dquote) rest)) + 1 else -1)"
    by (simp add: assms indexOfFrom_def indexOf_single Let_def)
  show "indexOfFrom body [dquote] 1 > 0 \<longleftrightarrow> dquote \<in> set rest"
    unfolding i by simp
  show "substr body 1 (indexOfFrom body [dquote] 1 - 1) = takeWhile (\<lambda>c. c \<noteq> dquote) rest"
    if "dquote \<in> set rest"
    unfolding i using that takeWhile_eq_take [of "\<lambda>c. c \<noteq> dquote" rest, symmetric]
    by (simp add: substr_def assms)
qed

lemma readFirebaseString_parse_body:
  assumes "sublist ''200 OK'' response" "indexOf response (crlf @ crlf) = int i"
  shows "readFirebaseString_parse response = bodyValue (drop (i + 4) response)"
proof -
  let ?body = "drop (i + 4) response"
  have b: "substrFrom response (int i + 4) = ?body"
    by (simp add: substrFrom_def nat_add_distrib)
  have q: "(charAt ?body 0 = [dquote] \<and> indexOfFrom ?body [dquote] 1 > 0) \<longleftrightarrow>
           (?body \<noteq> [] \<and> hd ?body = dquote \<and> dquote \<in> set (tl ?body))"
  proof (cases ?body)
    case Nil
    then show ?thesis by (simp add: charAt_def)
  next
    case (Cons c rest)
    show ?thesis
    proof (cases "c = dquote")
      case True
      with Cons quoted_value(1) [of ?body rest] show ?thesis by (simp add: charAt_def)
    next
      case False
      with Cons show ?thesis by (simp add: charAt_def)
    qed
  qed
  have v: "?body \<noteq> [] \<and> hd ?body = dquote \<and> dquote \<in> set (tl ?body) \<Longrightarrow>
           substr ?body 1 (indexOfFrom ?body [dquote] 1 - 1) = takeWhile (\<lambda>c. c \<noteq> dquote) (tl ?body)"
  proof -
    assume a: "?body \<noteq> [] \<and> hd ?body = dquote \<and> dquote \<in> set (tl ?body)"
    then have "?body = dquote # tl ?body" by (metis list.collapse)
    from quoted_value(2) [OF this] a show ?thesis by simp
  qed
  from assms have p: "readFirebaseString_parse response =
      (if indexOf ?body ''null'' \<ge> 0 then []
       else if charAt ?body 0 = [dquote] \<and> indexOfFrom ?body [dquote] 1 > 0 then
         substr ?body 1 (indexOfFrom ?body [dquote] 1 - 1)
       else readFirebaseString_clean ?body [])"
    unfolding readFirebaseString_parse_def Let_def b [symmetric]
    by (simp add: indexOf_sublist [symmetric])
  show ?thesis
    unfolding p bodyValue_def q indexOf_sublist readFirebaseString_clean_eq
    using v by auto
qed

text \<open>
  The number scan skips what comes before the first digit, dot or minus sign, and keeps
  every minus sign it meets.
\<close>

lemma readFirebaseString_parse_scan:
  "readFirebaseString_parse (''HTTP/1.1 200 OK'' @ crlf @ crlf @ ''ab23.5x'') = ''23.5''"
  "readFirebaseString_parse (''HTTP/1.1 200 OK'' @ crlf @ crlf @ ''1-2'') = ''1-2''"
  by (simp_all add: readFirebaseString_parse_def indexOfFrom_def isDigit_def string_simps)

text \<open>
  C9. The code tests whether the body contains \<open>null\<close> anywhere, before it looks for a
  quoted value. On a 200 response whose body, after the first CR-LF CR-LF, is \<open>"nullable"\<close>:
  the body is not the literal \<open>null\<close> and it starts with a quote, and the read returns the
  empty string, not the text \<open>nullable\<close> between the quotes.
\<close>

theorem readFirebaseString_null_inside:
  \<open>\<exists>w'. readFirebaseString_exchange ''status''
          (linkUp\<lparr>clock := [0, 1, 10, 11, 20, 21, 3020, 3030, 3031],
                  serialIn := [[], ''OK'', [], ''OK'',
                     ''HTTP/1.1 200 OK'' @ crlf @ crlf @ ''"nullable"'', [], ''OK'']\<rparr>)
          = Some (Some (''HTTP/1.1 200 OK'' @ crlf @ crlf @ ''"nullable"''), w') \<and>
        indexOf (''HTTP/1.1 200 OK'' @ crlf @ crlf @ ''"nullable"'') (crlf @ crlf) = 15 \<and>
        drop (15 + 4) (''HTTP/1.1 200 OK'' @ crlf @ crlf @ ''"nullable"'') = ''"nullable"'' \<and>
        ''"nullable"'' \<noteq> ''null'' \<and>
        readFirebaseString ''status''
          (linkUp\<lparr>clock := [0, 1, 10, 11, 20, 21, 3020, 3030, 3031],
                  serialIn := [[], ''OK'', [], ''OK'',
                     ''HTTP/1.1 200 OK'' @ crlf @ crlf @ ''"nullable"'', [], ''OK'']\<rparr>)
          = Some ([], w')\<close>
  by (simp add: readFirebaseString_def readFirebaseString_exchange_def readFirebaseString_parse_def
      indexOfFrom_def run_simps indexOf_sublist [symmetric])

section \<open>C10: a failed read is the number 0\<close>

lemma parseStringToNumber_zero: "parseStringToNumber ''0'' = 0"
  by (simp add: parseStringToNumber_def parseStringToNumber_step_def isDigit_def
      num_add_def num_mul_def fl_def)

lemma readFirebaseString_guards:
  "\<not> isWifiConnected w \<or> firebaseDatabaseURL w = [] \<or> firebaseApiKey w = [] \<Longrightarrow>
   readFirebaseString deviceName w = Some ([], w)"
  by (auto simp: readFirebaseString_def readFirebaseString_exchange_def)

lemma readFirebaseString_null:
  assumes "readFirebaseString_exchange deviceName w = Some (Some response, w')"
    and "sublist ''200 OK'' response" "indexOf response (crlf @ crlf) = int i"
    and "sublist ''null'' (drop (i + 4) response)"
  shows "readFirebaseString deviceName w = Some ([], w')"
  using assms by (simp add: readFirebaseString_def readFirebaseString_parse_body bodyValue_def)

text \<open>
  C10. Whenever \<open>readFirebaseString\<close> returns the empty string, \<open>readFirebaseNumber\<close>
  returns 0 on the same board. So it does when WiFi is not connected or the configuration
  is empty, when the exchange ends before a response is read (the session does not open,
  or the send-intent command fails), when the response has no \<open>200 OK\<close>, and when the
  body contains \<open>null\<close>. A stored value read as the text \<open>0\<close> gives the same number 0.
\<close>

theorem readFirebaseNumber_zero_on_empty:
  "(readFirebaseString deviceName w = Some ([], w') \<longrightarrow>
      readFirebaseNumber deviceName w = Some (0, w'))
   \<and> (\<not> isWifiConnected w \<or> firebaseDatabaseURL w = [] \<or> firebaseApiKey w = [] \<longrightarrow>
      readFirebaseNumber deviceName w = Some (0, w))
   \<and> (readFirebaseString_exchange deviceName w = Some (None, w') \<longrightarrow>
      readFirebaseNumber deviceName w = Some (0, w'))
   \<and> (readFirebaseString_exchange deviceName w = Some (Some response, w') \<and>
      \<not> sublist ''200 OK'' response \<longrightarrow>
      readFirebaseNumber deviceName w = Some (0, w'))
   \<and> (readFirebaseString_exchange deviceName w = Some (Some response, w') \<and>
      sublist ''200 OK'' response \<and> indexOf response (crlf @ crlf) = int i \<and>
      sublist ''null'' (drop (i + 4) response) \<longrightarrow>
      readFirebaseNumber deviceName w = Some (0, w'))
   \<and> (readFirebaseString deviceName w = Some (''0'', w') \<longrightarrow>
      readFirebaseNumber deviceName w = Some (0, w'))"
proof (intro conjI impI)
  assume "readFirebaseString deviceName w = Some ([], w')"
  then show "readFirebaseNumber deviceName w = Some (0, w')"
    by (simp add: readFirebaseNumber_def)
next
  assume "\<not> isWifiConnected w \<or> firebaseDatabaseURL w = [] \<or> firebaseApiKey w = []"
  from readFirebaseString_guards [OF this]
  show "readFirebaseNumber deviceName w = Some (0, w)"
    by (simp add: readFirebaseNumber_def)
next
  assume "readFirebaseString_exchange deviceName w = Some (None, w')"
  then show "readFirebaseNumber deviceName w = Some (0, w')"
    by (simp add: readFirebaseNumber_def readFirebaseString_def)
next
  assume "readFirebaseString_exchange deviceName w = Some (Some response, w') \<and>
      \<not> sublist ''200 OK'' response"
  then show "readFirebaseNumber deviceName w = Some (0, w')"
    by (simp add: readFirebaseNumber_def readFirebaseString_def readFirebaseString_parse_def
        indexOf_sublist [symmetric])
next
  assume "readFirebaseString_exchange deviceName w = Some (Some response, w') \<and>
      sublist ''200 OK'' response \<and> indexOf response (crlf @ crlf) = int i \<and>
      sublist ''null'' (drop (i + 4) response)"
  then have "readFirebaseString deviceName w = Some ([], w')"
    using readFirebaseString_null by blast
  then show "readFirebaseNumber deviceName w = Some (0, w')"
    by (simp add: readFirebaseNumber_def)
next
  assume "readFirebaseString deviceName w = Some (''0'', w')"
  then show "readFirebaseNumber deviceName w = Some (0, w')"
    by (simp add: readFirebaseNumber_def parseStringToNumber_zero)
qed

text \<open>A read on the board after power-on, where WiFi is not connected.\<close>

theorem readFirebaseNumber_zero_on_empty_witness:
  "readFirebaseString ''temperature'' powerOn = Some ([], powerOn) \<and>
   readFirebaseNumber ''temperature'' powerOn = Some (0, powerOn)"
proof -
  have h: "readFirebaseString ''temperature'' powerOn = Some ([], powerOn)"
    by (simp add: readFirebaseString_def readFirebaseString_exchange_def isWifiConnected_def
        powerOn_def)
  from readFirebaseNumber_zero_on_empty [of "''temperature''" powerOn powerOn] h
  show ?thesis by blast
qed

end
